theory Spec2Isabelle
  imports Complex_Main "HOL-Library.Char_ord" "HOL-Library.List_Lexorder" "HOL-Library.AList"
begin

section \<open>The suggestions service\<close>

text \<open>
  The service holds a fixed catalog of peptides, keyed by health goal. Every entry
  carries the age range it is recommended for. JavaScript exceptions are values of
  \<open>js_error\<close>; a function that may throw returns \<open>js_error + 'a\<close>, with \<open>Inl\<close> the
  thrown value.
\<close>

datatype js_error =
    Error string
  | TypeError string
  | IOError string
  | SyntaxError string

record age_range =
  min_age :: int
  max_age :: int

record peptide =
  name :: string
  description :: string
  dosage :: string
  timing :: string
  ageRecommendation :: age_range
  benefits :: "string list"

record suggestion = peptide +
  personalizedNote :: string

definition energy_peptides :: "peptide list" where
  "energy_peptides = [
     \<lparr>name = ''CJC-1295 with DAC'',
       description = ''A growth hormone releasing hormone analog that promotes natural energy production and vitality through improved sleep quality and recovery.'',
       dosage = ''2mg per week'',
       timing = ''Before bedtime'',
       ageRecommendation = \<lparr>min_age = 25, max_age = 65\<rparr>,
       benefits = [''Increased energy'', ''Better sleep'', ''Enhanced recovery'']\<rparr>,
     \<lparr>name = ''Ipamorelin'',
       description = ''A selective growth hormone secretagogue that supports natural energy levels without affecting cortisol or prolactin levels.'',
       dosage = ''200-300mcg daily'',
       timing = ''Morning or pre-workout'',
       ageRecommendation = \<lparr>min_age = 20, max_age = 70\<rparr>,
       benefits = [''Sustained energy'', ''Improved metabolism'', ''Fat loss support'']\<rparr>,
     \<lparr>name = ''MOTS-c'',
       description = ''A mitochondrial-derived peptide that enhances cellular energy production and metabolic efficiency.'',
       dosage = ''5-10mg twice weekly'',
       timing = ''Morning'',
       ageRecommendation = \<lparr>min_age = 30, max_age = 80\<rparr>,
       benefits = [''Mitochondrial health'', ''Energy production'', ''Metabolic support'']\<rparr>]"

definition sleep_peptides :: "peptide list" where
  "sleep_peptides = [
     \<lparr>name = ''DSIP (Delta Sleep-Inducing Peptide)'',
       description = ''A natural sleep-promoting peptide that helps regulate sleep cycles and improve sleep quality.'',
       dosage = ''100-200mcg'',
       timing = ''30 minutes before bedtime'',
       ageRecommendation = \<lparr>min_age = 18, max_age = 75\<rparr>,
       benefits = [''Deep sleep'', ''Sleep cycle regulation'', ''Stress reduction'']\<rparr>,
     \<lparr>name = ''CJC-1295 with DAC'',
       description = ''Promotes deeper, more restorative sleep through growth hormone optimization, leading to better recovery.'',
       dosage = ''2mg per week'',
       timing = ''Before bedtime'',
       ageRecommendation = \<lparr>min_age = 25, max_age = 65\<rparr>,
       benefits = [''Sleep quality'', ''Recovery'', ''Anti-aging'']\<rparr>,
     \<lparr>name = ''Glycine Peptide Complex'',
       description = ''A specialized peptide formulation that promotes relaxation and supports natural sleep patterns.'',
       dosage = ''1-3g'',
       timing = ''1 hour before bed'',
       ageRecommendation = \<lparr>min_age = 18, max_age = 85\<rparr>,
       benefits = [''Relaxation'', ''Sleep onset'', ''Sleep maintenance'']\<rparr>]"

definition focus_peptides :: "peptide list" where
  "focus_peptides = [
     \<lparr>name = ''Noopept'',
       description = ''A nootropic peptide that enhances cognitive function, focus, and mental clarity through neuroprotective mechanisms.'',
       dosage = ''10-30mg daily'',
       timing = ''Morning with breakfast'',
       ageRecommendation = \<lparr>min_age = 18, max_age = 60\<rparr>,
       benefits = [''Mental clarity'', ''Focus enhancement'', ''Memory support'']\<rparr>,
     \<lparr>name = ''Selank'',
       description = ''An anxiolytic peptide that reduces anxiety while enhancing cognitive performance and mental focus.'',
       dosage = ''150-300mcg daily'',
       timing = ''Morning'',
       ageRecommendation = \<lparr>min_age = 20, max_age = 65\<rparr>,
       benefits = [''Anxiety reduction'', ''Cognitive enhancement'', ''Stress management'']\<rparr>,
     \<lparr>name = ''Cerebrolysin'',
       description = ''A neuropeptide complex that supports brain health, cognitive function, and neural plasticity.'',
       dosage = ''5-10ml per session'',
       timing = ''Morning'',
       ageRecommendation = \<lparr>min_age = 25, max_age = 70\<rparr>,
       benefits = [''Neuroprotection'', ''Cognitive enhancement'', ''Brain health'']\<rparr>]"

definition recovery_peptides :: "peptide list" where
  "recovery_peptides = [
     \<lparr>name = ''BPC-157'',
       description = ''A healing peptide that accelerates tissue repair, reduces inflammation, and supports overall recovery.'',
       dosage = ''250-500mcg daily'',
       timing = ''Post-workout or with meals'',
       ageRecommendation = \<lparr>min_age = 18, max_age = 80\<rparr>,
       benefits = [''Tissue repair'', ''Inflammation reduction'', ''Injury recovery'']\<rparr>,
     \<lparr>name = ''TB-500 (Thymosin Beta-4)'',
       description = ''A regenerative peptide that promotes healing, reduces inflammation, and supports muscle and tissue recovery.'',
       dosage = ''2-5mg twice weekly'',
       timing = ''Post-workout'',
       ageRecommendation = \<lparr>min_age = 20, max_age = 75\<rparr>,
       benefits = [''Muscle recovery'', ''Tissue regeneration'', ''Anti-inflammatory'']\<rparr>,
     \<lparr>name = ''IGF-1 LR3'',
       description = ''An insulin-like growth factor that supports muscle recovery, growth, and overall tissue repair.'',
       dosage = ''20-40mcg daily'',
       timing = ''Post-workout'',
       ageRecommendation = \<lparr>min_age = 21, max_age = 65\<rparr>,
       benefits = [''Muscle growth'', ''Recovery acceleration'', ''Tissue repair'']\<rparr>]"

definition longevity_peptides :: "peptide list" where
  "longevity_peptides = [
     \<lparr>name = ''Epitalon'',
       description = ''A telomerase-activating peptide that supports cellular longevity and anti-aging processes.'',
       dosage = ''5-10mg per cycle'',
       timing = ''Before bedtime'',
       ageRecommendation = \<lparr>min_age = 35, max_age = 85\<rparr>,
       benefits = [''Anti-aging'', ''Cellular longevity'', ''Immune support'']\<rparr>,
     \<lparr>name = ''GHK-Cu'',
       description = ''A copper peptide complex that supports skin health, wound healing, and anti-aging processes.'',
       dosage = ''1-3mg daily'',
       timing = ''Morning'',
       ageRecommendation = \<lparr>min_age = 30, max_age = 80\<rparr>,
       benefits = [''Skin health'', ''Collagen production'', ''Anti-aging'']\<rparr>,
     \<lparr>name = ''NAD+ Peptide Precursors'',
       description = ''Peptides that support NAD+ production for cellular energy, DNA repair, and longevity pathways.'',
       dosage = ''100-500mg daily'',
       timing = ''Morning'',
       ageRecommendation = \<lparr>min_age = 40, max_age = 85\<rparr>,
       benefits = [''Cellular energy'', ''DNA repair'', ''Longevity support'']\<rparr>]"

definition peptideDatabase :: "(string \<times> peptide list) list" where
  "peptideDatabase =
     [(''energy'', energy_peptides),
      (''sleep'', sleep_peptides),
      (''focus'', focus_peptides),
      (''recovery'', recovery_peptides),
      (''longevity'', longevity_peptides)]"

definition getAgeGroup :: "int \<Rightarrow> string" where
  "getAgeGroup age =
     (if age < 35 then ''young'' else if age < 55 then ''middle'' else ''mature'')"

definition personalizedNotes :: "(string \<times> (string \<times> string) list) list" where
  "personalizedNotes =
     [(''young'',
        [(''energy'', ''At your age, focus on natural optimization rather than aggressive supplementation.''),
         (''sleep'', ''Establishing good sleep hygiene is crucial for your age group.''),
         (''focus'', ''Cognitive enhancement can provide significant benefits for productivity.''),
         (''recovery'', ''Your natural recovery is still strong, use this to enhance performance.''),
         (''longevity'', ''Starting early with longevity protocols can provide long-term benefits.'')]),
      (''middle'',
        [(''energy'', ''This peptide can help counteract age-related energy decline.''),
         (''sleep'', ''Sleep quality often decreases with age - this can help restore it.''),
         (''focus'', ''Cognitive support becomes increasingly important in your 40s-50s.''),
         (''recovery'', ''Recovery time increases with age - this can help maintain performance.''),
         (''longevity'', ''This is an optimal age to begin serious anti-aging interventions.'')]),
      (''mature'',
        [(''energy'', ''Energy optimization is crucial for maintaining vitality at your age.''),
         (''sleep'', ''Quality sleep becomes even more important for health and recovery.''),
         (''focus'', ''Cognitive support can help maintain mental sharpness and clarity.''),
         (''recovery'', ''Enhanced recovery support is essential for maintaining activity levels.''),
         (''longevity'', ''Anti-aging peptides can significantly impact quality of life.'')])]"

text \<open>
  \<open>personalizedNotes[ageGroup]?.[goal] || default\<close>: a missing group or goal gives the
  default text (no catalog note is the empty string, the other falsy case).
\<close>

definition getPersonalizedNote :: "int \<Rightarrow> string \<Rightarrow> string \<Rightarrow> string" where
  "getPersonalizedNote age goal peptideName =
     (let ageGroup = getAgeGroup age in
      case map_of personalizedNotes ageGroup of
        None \<Rightarrow> ''Consult with a healthcare provider for personalized guidance.''
      | Some notes \<Rightarrow>
          (case map_of notes goal of
             None \<Rightarrow> ''Consult with a healthcare provider for personalized guidance.''
           | Some note \<Rightarrow>
               if note = [] then ''Consult with a healthcare provider for personalized guidance.''
               else note))"

definition age_suitable :: "int \<Rightarrow> peptide \<Rightarrow> bool" where
  "age_suitable age p =
     (age \<ge> min_age (ageRecommendation p) \<and> age \<le> max_age (ageRecommendation p))"

definition personalize :: "int \<Rightarrow> string \<Rightarrow> peptide \<Rightarrow> suggestion" where
  "personalize age goal p =
     peptide.extend p
       (suggestion.fields (getPersonalizedNote age goal (name p)))"

text \<open>
  \<open>getSuggestions\<close>: look the goal up (a missing goal gives the empty list), throw when
  there is nothing, filter by age, fall back to the whole list when the filter leaves
  nothing, attach the note, and keep the first three (\<open>slice(0, 3)\<close>).
\<close>

definition getSuggestions :: "int \<Rightarrow> string \<Rightarrow> js_error + suggestion list" where
  "getSuggestions age goal =
     (let goalPeptides = (case map_of peptideDatabase goal of None \<Rightarrow> [] | Some ps \<Rightarrow> ps) in
      if length goalPeptides = 0
      then Inl (Error (''No peptides found for goal: '' @ goal))
      else
        let ageSuitablePeptides = filter (age_suitable age) goalPeptides;
            selectedPeptides =
              (if length ageSuitablePeptides > 0 then ageSuitablePeptides else goalPeptides);
            personalizedSuggestions = map (personalize age goal) selectedPeptides
        in Inr (take 3 personalizedSuggestions))"

definition catalog_goals :: "string list" where
  "catalog_goals = map fst peptideDatabase"

section \<open>Calendar days and ISO date strings\<close>

text \<open>
  The analytics service keys its ledger by the date part of \<open>Date.toISOString()\<close> and
  moves through the calendar with \<open>setDate(getDate() + k)\<close>. A \<open>Date\<close> value is modelled
  by its calendar day; the process time zone is taken to be UTC, so that \<open>getDate\<close>,
  \<open>setDate\<close> and \<open>toISOString\<close> speak about the same day, and the time of day is carried
  separately as text.
\<close>

datatype calendar_day = Day (year: int) (month: nat) (day: nat)

definition leap_year :: "int \<Rightarrow> bool" where
  "leap_year y = ((y mod 4 = 0 \<and> y mod 100 \<noteq> 0) \<or> y mod 400 = 0)"

definition days_in_month :: "int \<Rightarrow> nat \<Rightarrow> nat" where
  "days_in_month y m =
     (if m = 2 then (if leap_year y then 29 else 28)
      else if m = 4 \<or> m = 6 \<or> m = 9 \<or> m = 11 then 30
      else 31)"

definition valid_day :: "calendar_day \<Rightarrow> bool" where
  "valid_day d =
     (1 \<le> month d \<and> month d \<le> 12 \<and> 1 \<le> day d \<and> day d \<le> days_in_month (year d) (month d))"

text \<open>\<open>d.setDate(d.getDate() + 1)\<close> and \<open>d.setDate(d.getDate() - 1)\<close> on a calendar day.\<close>

fun next_day :: "calendar_day \<Rightarrow> calendar_day" where
  "next_day (Day y m d) =
     (if d < days_in_month y m then Day y m (d + 1)
      else if m < 12 then Day y (m + 1) 1
      else Day (y + 1) 1 1)"

fun prev_day :: "calendar_day \<Rightarrow> calendar_day" where
  "prev_day (Day y m d) =
     (if 1 < d then Day y m (d - 1)
      else if 1 < m then Day y (m - 1) (days_in_month y (m - 1))
      else Day (y - 1) 12 31)"

text \<open>\<open>d.setDate(d.getDate() + k)\<close> for an integer \<open>k\<close> of either sign.\<close>

definition add_days :: "int \<Rightarrow> calendar_day \<Rightarrow> calendar_day" where
  "add_days k d = (if 0 \<le> k then (next_day ^^ nat k) d else (prev_day ^^ nat (- k)) d)"

text \<open>The comparison \<open>d <= end\<close> of two \<open>Date\<close> values at midnight UTC.\<close>

definition day_le :: "calendar_day \<Rightarrow> calendar_day \<Rightarrow> bool" where
  "day_le a b =
     (year a < year b \<or>
      (year a = year b \<and> (month a < month b \<or> (month a = month b \<and> day a \<le> day b))))"

definition digit :: "nat \<Rightarrow> char" where
  "digit n = char_of (48 + n mod 10)"

definition pad2 :: "nat \<Rightarrow> string" where
  "pad2 n = [digit (n div 10), digit n]"

definition pad4 :: "nat \<Rightarrow> string" where
  "pad4 n = [digit (n div 1000), digit (n div 100), digit (n div 10), digit n]"

definition pad6 :: "nat \<Rightarrow> string" where
  "pad6 n = [digit (n div 100000), digit (n div 10000)] @ pad4 n"

text \<open>
  The date part of \<open>toISOString()\<close>: four digits for the years 0 to 9999, a sign and six
  digits for the others.
\<close>

definition iso_year :: "int \<Rightarrow> string" where
  "iso_year y =
     (if 0 \<le> y \<and> y \<le> 9999 then pad4 (nat y)
      else (if y < 0 then ''-'' else ''+'') @ pad6 (nat \<bar>y\<bar>))"

definition iso_date :: "calendar_day \<Rightarrow> string" where
  "iso_date d = iso_year (year d) @ ''-'' @ pad2 (month d) @ ''-'' @ pad2 (day d)"

text \<open>\<open>timestamp.split('T')[0]\<close>: the text before the first \<open>T\<close>.\<close>

definition date_part :: "string \<Rightarrow> string" where
  "date_part s = takeWhile (\<lambda>c. c \<noteq> CHR ''T'') s"

definition digit_val :: "char \<Rightarrow> nat option" where
  "digit_val c =
     (let n = (of_char c :: nat) in if 48 \<le> n \<and> n \<le> 57 then Some (n - 48) else None)"

definition digits_val :: "string \<Rightarrow> nat option" where
  "digits_val s =
     fold (\<lambda>c acc. case acc of None \<Rightarrow> None
                    | Some a \<Rightarrow> (case digit_val c of None \<Rightarrow> None | Some v \<Rightarrow> Some (10 * a + v)))
       s (Some 0)"

text \<open>
  \<open>new Date(s)\<close> for the date-only form \<open>YYYY-MM-DD\<close>, read as midnight UTC; \<open>None\<close> is
  the invalid date. The engine accepts a day of the month up to 31 for every month and
  carries the overflow into the next month. Other forms of date text are not
  modelled: they are never produced by the service itself.
\<close>

definition new_Date :: "string \<Rightarrow> calendar_day option" where
  "new_Date s =
     (if length s = 10 \<and> s ! 4 = CHR ''-'' \<and> s ! 7 = CHR ''-'' then
        (case digits_val (take 4 s) of
           None \<Rightarrow> None
         | Some y \<Rightarrow>
            (case digits_val (take 2 (drop 5 s)) of
               None \<Rightarrow> None
             | Some m \<Rightarrow>
                (case digits_val (drop 8 s) of
                   None \<Rightarrow> None
                 | Some d \<Rightarrow>
                     if 1 \<le> m \<and> m \<le> 12 \<and> 1 \<le> d \<and> d \<le> 31 then
                       (if d \<le> days_in_month (int y) m then Some (Day (int y) m d)
                        else Some (Day (int y) (m + 1) (d - days_in_month (int y) m)))
                     else None)))
      else None)"

section \<open>The analytics service: data\<close>

text \<open>
  A day record as the service keeps it. The field \<open>uniqueIPs\<close> is a \<open>Set\<close> in a record
  the service has just created and an array in a record that came out of
  \<open>JSON.parse\<close>; the record type leaves the field's type open, a stored record has a
  list there, a record in memory an \<open>ip_collection\<close>.
\<close>

record error_entry =
  error :: "string option"
  timestamp :: string
  requestId :: "string option"

record 'ips day_data =
  date :: string
  totalRequests :: nat
  successfulRequests :: nat
  failedRequests :: nat
  goalSelections :: "(string \<times> nat) list"
  errors :: "error_entry list"
  averageResponseTime :: nat
  uniqueIPs :: 'ips
  firstRequest :: "string option"
  lastRequest :: "string option"

datatype ip_collection = SetOf "string list" | ArrayOf "string list"

type_synonym stored_day = "string list day_data"

type_synonym ledger = "(string \<times> stored_day) list"

text \<open>
  What reading the ledger file gives: no file, text that \<open>JSON.parse\<close> rejects, or the
  object of day records that the service wrote, in key order.
\<close>

datatype analytics_file = NoFile | NotJson | Ledger ledger

text \<open>The payload of a request event; only these three properties are read.\<close>

record request_data =
  req_requestId :: "string option"
  req_ip :: "string option"
  req_error :: "string option"

datatype event =
    goalSelection string
  | successfulRequest request_data
  | failedRequest request_data

record daily_counters =
  counter_requests :: nat
  counter_goalSelections :: "(string \<times> nat) list"
  counter_errors :: nat
  counter_successfulRequests :: nat

text \<open>
  The surroundings of one call: the clock (one reading per call), and whether
  \<open>fs.writeFile\<close> succeeds.
\<close>

record environment =
  today :: calendar_day
  timeOfDay :: string
  writeSucceeds :: bool

text \<open>
  The service instance: its counters, the ledger file, and what it has written with
  \<open>console.error\<close>.
\<close>

record service =
  dailyCounters :: daily_counters
  analyticsFile :: analytics_file
  console :: "(string \<times> js_error) list"

section \<open>The analytics service: recording events\<close>

definition toISOString :: "environment \<Rightarrow> string" where
  "toISOString env = iso_date (today env) @ ''T'' @ timeOfDay env"

text \<open>\<open>fs.readFile\<close> followed by \<open>JSON.parse\<close>.\<close>

definition readLedger :: "analytics_file \<Rightarrow> js_error + ledger" where
  "readLedger f =
     (case f of
        NoFile \<Rightarrow> Inl (IOError ''ENOENT: no such file or directory'')
      | NotJson \<Rightarrow> Inl (SyntaxError ''Unexpected token in JSON'')
      | Ledger l \<Rightarrow> Inr l)"

text \<open>\<open>fs.writeFile\<close> of \<open>JSON.stringify(analytics)\<close>; a failed write leaves the file as it was.\<close>

definition writeLedger :: "environment \<Rightarrow> ledger \<Rightarrow> js_error + analytics_file" where
  "writeLedger env l =
     (if writeSucceeds env then Inr (Ledger l)
      else Inl (IOError ''EACCES: permission denied''))"

text \<open>The record created for a date the ledger does not have yet.\<close>

definition newDayData :: "string \<Rightarrow> ip_collection day_data" where
  "newDayData d =
     \<lparr>date = d, totalRequests = 0, successfulRequests = 0, failedRequests = 0,
      goalSelections = [], errors = [], averageResponseTime = 0,
      uniqueIPs = SetOf [], firstRequest = None, lastRequest = None\<rparr>"

text \<open>A record as \<open>JSON.parse\<close> hands it over: the same fields, \<open>uniqueIPs\<close> an array.\<close>

definition parsedDayData :: "stored_day \<Rightarrow> ip_collection day_data" where
  "parsedDayData s =
     \<lparr>date = date s, totalRequests = totalRequests s,
      successfulRequests = successfulRequests s, failedRequests = failedRequests s,
      goalSelections = goalSelections s, errors = errors s,
      averageResponseTime = averageResponseTime s,
      uniqueIPs = ArrayOf (uniqueIPs s),
      firstRequest = firstRequest s, lastRequest = lastRequest s\<rparr>"

text \<open>\<open>dayData.uniqueIPs.add(x)\<close>: a \<open>Set\<close> has the method, an array does not.\<close>

definition uniqueIPs_add :: "ip_collection \<Rightarrow> string \<Rightarrow> js_error + ip_collection" where
  "uniqueIPs_add c x =
     (case c of
        SetOf xs \<Rightarrow> Inr (SetOf (if x \<in> set xs then xs else xs @ [x]))
      | ArrayOf xs \<Rightarrow> Inl (TypeError ''dayData.uniqueIPs.add is not a function''))"

text \<open>\<open>Array.from\<close> of a \<open>Set\<close> (in insertion order) or of an array.\<close>

definition Array_from :: "ip_collection \<Rightarrow> string list" where
  "Array_from c = (case c of SetOf xs \<Rightarrow> xs | ArrayOf xs \<Rightarrow> xs)"

text \<open>\<open>dayData.uniqueIPs = Array.from(dayData.uniqueIPs)\<close>: the record is now as it is stored.\<close>

definition serializable :: "ip_collection day_data \<Rightarrow> stored_day" where
  "serializable m =
     \<lparr>date = date m, totalRequests = totalRequests m,
      successfulRequests = successfulRequests m, failedRequests = failedRequests m,
      goalSelections = goalSelections m, errors = errors m,
      averageResponseTime = averageResponseTime m,
      uniqueIPs = Array_from (uniqueIPs m),
      firstRequest = firstRequest m, lastRequest = lastRequest m\<rparr>"

text \<open>
  \<open>if (!tally[goal]) tally[goal] = 0; tally[goal]++\<close>: a missing or zero count starts
  at zero; a new key goes to the end of the object.
\<close>

definition incrementGoal :: "string \<Rightarrow> (string \<times> nat) list \<Rightarrow> (string \<times> nat) list" where
  "incrementGoal goal tally =
     (case map_of tally goal of
        None \<Rightarrow> AList.update goal 1 tally
      | Some c \<Rightarrow> AList.update goal (c + 1) tally)"

text \<open>\<open>x || fallback\<close> on an optional string: missing and empty are falsy.\<close>

definition or_else :: "string option \<Rightarrow> string \<Rightarrow> string" where
  "or_else x fallback = (case x of None \<Rightarrow> fallback | Some s \<Rightarrow> if s = [] then fallback else s)"

text \<open>The \<open>switch\<close> on the event type, on the record of the day.\<close>

fun applyEvent ::
  "string \<Rightarrow> event \<Rightarrow> ip_collection day_data \<Rightarrow> js_error + ip_collection day_data" where
  "applyEvent now (goalSelection goal) dayData =
     Inr (dayData\<lparr>goalSelections := incrementGoal goal (goalSelections dayData)\<rparr>)"
| "applyEvent now (successfulRequest data) dayData =
     (case uniqueIPs_add (uniqueIPs dayData) (or_else (req_ip data) ''unknown'') of
        Inl e \<Rightarrow> Inl e
      | Inr ips \<Rightarrow>
          Inr (dayData\<lparr>totalRequests := totalRequests dayData + 1,
                       successfulRequests := successfulRequests dayData + 1,
                       uniqueIPs := ips,
                       lastRequest := Some now,
                       firstRequest := Some (or_else (firstRequest dayData) now)\<rparr>))"
| "applyEvent now (failedRequest data) dayData =
     (case uniqueIPs_add (uniqueIPs dayData) (or_else (req_ip data) ''unknown'') of
        Inl e \<Rightarrow> Inl e
      | Inr ips \<Rightarrow>
          Inr (dayData\<lparr>totalRequests := totalRequests dayData + 1,
                       failedRequests := failedRequests dayData + 1,
                       errors := errors dayData @
                         [\<lparr>error = req_error data, timestamp = now,
                           requestId = req_requestId data\<rparr>],
                       uniqueIPs := ips,
                       lastRequest := Some now,
                       firstRequest := Some (or_else (firstRequest dayData) now)\<rparr>))"

text \<open>
  The cutoff of the retention: the date ninety days before the clock's day
  (\<open>setDate(getDate() - 90)\<close>, then the date part of \<open>toISOString()\<close>).
\<close>

definition cutoffDate :: "environment \<Rightarrow> string" where
  "cutoffDate env = iso_date (add_days (- 90) (today env))"

text \<open>
  The inner \<open>try\<close> of \<open>updateDailyAnalytics\<close>: a file that cannot be read or parsed
  gives the empty ledger.
\<close>

definition loadOrEmpty :: "analytics_file \<Rightarrow> ledger" where
  "loadOrEmpty file = (case readLedger file of Inl e \<Rightarrow> [] | Inr l \<Rightarrow> l)"

text \<open>
  The body of the \<open>try\<close> block of \<open>updateDailyAnalytics\<close>: read the ledger (an unreadable
  file is an empty ledger), find or create the record of the date, apply the event,
  turn the caller set into an array, drop the dates before the cutoff, write.
  \<open>Inl\<close> is an exception that leaves the block.
\<close>

definition updateDailyAnalytics_try ::
  "environment \<Rightarrow> analytics_file \<Rightarrow> string \<Rightarrow> event \<Rightarrow> js_error + analytics_file" where
  "updateDailyAnalytics_try env file d ev =
     (let analytics = loadOrEmpty file;
          dayData = (case map_of analytics d of
                       None \<Rightarrow> newDayData d
                     | Some s \<Rightarrow> parsedDayData s)
      in case applyEvent (toISOString env) ev dayData of
           Inl e \<Rightarrow> Inl e
         | Inr dayData' \<Rightarrow>
             (let analytics' = AList.update d (serializable dayData') analytics;
                  kept = filter (\<lambda>(analyticsDate, _). \<not> analyticsDate < cutoffDate env)
                           analytics'
              in writeLedger env kept))"

text \<open>
  \<open>updateDailyAnalytics\<close>: the outer \<open>catch\<close> writes the exception to the console and
  returns; the call itself never throws, so its result is always \<open>Inr ()\<close>.
\<close>

definition updateDailyAnalytics ::
  "environment \<Rightarrow> string \<Rightarrow> event \<Rightarrow> service \<Rightarrow> (js_error + unit) \<times> service" where
  "updateDailyAnalytics env d ev s =
     (case updateDailyAnalytics_try env (analyticsFile s) d ev of
        Inl e \<Rightarrow> (Inr (), s\<lparr>console := console s @ [(''Error updating daily analytics:'', e)]\<rparr>)
      | Inr file' \<Rightarrow> (Inr (), s\<lparr>analyticsFile := file'\<rparr>))"

definition logGoalSelection ::
  "environment \<Rightarrow> string \<Rightarrow> service \<Rightarrow> (js_error + unit) \<times> service" where
  "logGoalSelection env goal s =
     (let timestamp = toISOString env;
          d = date_part timestamp;
          c = dailyCounters s;
          s' = s\<lparr>dailyCounters :=
                  c\<lparr>counter_goalSelections := incrementGoal goal (counter_goalSelections c)\<rparr>\<rparr>
      in updateDailyAnalytics env d (goalSelection goal) s')"

definition logSuccessfulRequest ::
  "environment \<Rightarrow> request_data \<Rightarrow> service \<Rightarrow> (js_error + unit) \<times> service" where
  "logSuccessfulRequest env requestData s =
     (let timestamp = toISOString env;
          d = date_part timestamp;
          c = dailyCounters s;
          s' = s\<lparr>dailyCounters :=
                  c\<lparr>counter_requests := counter_requests c + 1,
                    counter_successfulRequests := counter_successfulRequests c + 1\<rparr>\<rparr>
      in updateDailyAnalytics env d (successfulRequest requestData) s')"

definition logFailedRequest ::
  "environment \<Rightarrow> request_data \<Rightarrow> service \<Rightarrow> (js_error + unit) \<times> service" where
  "logFailedRequest env requestData s =
     (let timestamp = toISOString env;
          d = date_part timestamp;
          c = dailyCounters s;
          s' = s\<lparr>dailyCounters :=
                  c\<lparr>counter_requests := counter_requests c + 1,
                    counter_errors := counter_errors c + 1\<rparr>\<rparr>
      in updateDailyAnalytics env d (failedRequest requestData) s')"

text \<open>The service as its constructor leaves it, on a given ledger file.\<close>

definition new_service :: "analytics_file \<Rightarrow> service" where
  "new_service f =
     \<lparr>dailyCounters = \<lparr>counter_requests = 0, counter_goalSelections = [],
                        counter_errors = 0, counter_successfulRequests = 0\<rparr>,
      analyticsFile = f, console = []\<rparr>"

section \<open>The analytics service: queries\<close>

definition getEmptyDayData :: "string \<Rightarrow> stored_day" where
  "getEmptyDayData d =
     \<lparr>date = d, totalRequests = 0, successfulRequests = 0, failedRequests = 0,
      goalSelections = [], errors = [], averageResponseTime = 0,
      uniqueIPs = [], firstRequest = None, lastRequest = None\<rparr>"

text \<open>\<open>analytics[d] || this.getEmptyDayData(d)\<close>.\<close>

definition recordOrEmpty :: "ledger \<Rightarrow> string \<Rightarrow> stored_day" where
  "recordOrEmpty analytics d =
     (case map_of analytics d of None \<Rightarrow> getEmptyDayData d | Some r \<Rightarrow> r)"

text \<open>
  The four shapes of the answer of \<open>getDailyAnalytics\<close>: today's record with the
  counters, one day's record, the mapping of a range, and the error object.
\<close>

datatype analytics_result =
    TodayResult string stored_day daily_counters
  | DayResult string stored_day
  | RangeResult ledger
  | ErrorResult string

text \<open>
  \<open>for (let d = new Date(start); d <= end; d.setDate(d.getDate() + 1))
  result[iso(d)] = analytics[iso(d)] || empty\<close>.
\<close>

function range_loop :: "ledger \<Rightarrow> calendar_day \<Rightarrow> calendar_day \<Rightarrow> ledger \<Rightarrow> ledger" where
  "range_loop analytics d end_day result =
     (if day_le d end_day
      then range_loop analytics (next_day d) end_day
             (AList.update (iso_date d) (recordOrEmpty analytics (iso_date d)) result)
      else result)"
  by pat_completeness auto
termination
proof (relation "measures [\<lambda>(a, d, e, r). nat (year e - year d + 1),
                           \<lambda>(a, d, e, r). 12 - month d,
                           \<lambda>(a, d, e, r). 31 - day d]")
  show "wf (measures [\<lambda>(a, d, e, r). nat (year e - year d + 1),
                      \<lambda>(a, d, e, r). 12 - month d,
                      \<lambda>(a, d, e, r). 31 - day d])"
    by simp
next
  fix analytics :: ledger and d end_day :: calendar_day and result :: ledger
  assume le: "day_le d end_day"
  obtain y m k where d: "d = Day y m k" by (cases d)
  have y: "y \<le> year end_day"
    using le by (auto simp: day_le_def d)
  have dim: "days_in_month y m \<le> 31"
    by (simp add: days_in_month_def)
  show "((analytics, next_day d, end_day,
          AList.update (iso_date d) (recordOrEmpty analytics (iso_date d)) result),
         (analytics, d, end_day, result))
        \<in> measures [\<lambda>(a, d, e, r). nat (year e - year d + 1),
                     \<lambda>(a, d, e, r). 12 - month d,
                     \<lambda>(a, d, e, r). 31 - day d]"
    using y dim by (auto simp: d)
qed

declare range_loop.simps [simp del]

text \<open>\<open>!x\<close> on an optional string argument: \<open>null\<close> and the empty string are falsy.\<close>

definition falsy :: "string option \<Rightarrow> bool" where
  "falsy x = (case x of None \<Rightarrow> True | Some s \<Rightarrow> s = [])"

text \<open>
  \<open>getDailyAnalytics\<close>. A failed read or parse is caught and answered with the error
  object. In the range branch an invalid date makes the loop condition false at once.
\<close>

definition getDailyAnalytics ::
  "environment \<Rightarrow> service \<Rightarrow> string option \<Rightarrow> string option \<Rightarrow> analytics_result" where
  "getDailyAnalytics env s startDate endDate =
     (case readLedger (analyticsFile s) of
        Inl e \<Rightarrow> ErrorResult ''Failed to read analytics data''
      | Inr analytics \<Rightarrow>
          if falsy startDate then
            (let today_str = date_part (toISOString env)
             in TodayResult today_str (recordOrEmpty analytics today_str) (dailyCounters s))
          else if falsy endDate then
            DayResult (or_else startDate []) (recordOrEmpty analytics (or_else startDate []))
          else
            (case (new_Date (or_else startDate []), new_Date (or_else endDate [])) of
               (Some start_day, Some end_day) \<Rightarrow>
                  RangeResult (range_loop analytics start_day end_day [])
             | _ \<Rightarrow> RangeResult []))"

text \<open>The running sums of \<open>getSummaryAnalytics\<close>.\<close>

record totals =
  totalRequests_sum :: nat
  totalSuccessful :: nat
  totalFailed :: nat
  allGoalSelections :: "(string \<times> nat) list"
  uniqueIPs_set :: "string list"

text \<open>\<open>all[goal] = (all[goal] || 0) + count\<close> for every entry of a day's tally.\<close>

definition addGoalSelections ::
  "(string \<times> nat) list \<Rightarrow> (string \<times> nat) list \<Rightarrow> (string \<times> nat) list" where
  "addGoalSelections entries acc =
     fold (\<lambda>(goal, n) all.
             AList.update goal ((case map_of all goal of None \<Rightarrow> 0 | Some c \<Rightarrow> c) + n) all)
       entries acc"

definition addIPs :: "string list \<Rightarrow> string list \<Rightarrow> string list" where
  "addIPs ips acc = fold (\<lambda>ip seen. if ip \<in> set seen then seen else seen @ [ip]) ips acc"

text \<open>The body of the \<open>forEach\<close> over the days: a day with no requests is passed over.\<close>

definition addDay :: "stored_day \<Rightarrow> totals \<Rightarrow> totals" where
  "addDay dayData t =
     (if totalRequests dayData \<noteq> 0 then
        \<lparr>totalRequests_sum = totalRequests_sum t + totalRequests dayData,
         totalSuccessful = totalSuccessful t + successfulRequests dayData,
         totalFailed = totalFailed t + failedRequests dayData,
         allGoalSelections = addGoalSelections (goalSelections dayData) (allGoalSelections t),
         uniqueIPs_set = addIPs (uniqueIPs dayData) (uniqueIPs_set t)\<rparr>
      else t)"

definition no_totals :: totals where
  "no_totals = \<lparr>totalRequests_sum = 0, totalSuccessful = 0, totalFailed = 0,
                 allGoalSelections = [], uniqueIPs_set = []\<rparr>"

text \<open>
  \<open>Object.values(rangeData)\<close>: the day records of a range; the error object has a
  single text value, which the loop passes over because it has no \<open>totalRequests\<close>.
\<close>

definition day_values :: "analytics_result \<Rightarrow> stored_day list" where
  "day_values r = (case r of RangeResult days \<Rightarrow> map snd days | _ \<Rightarrow> [])"

fun string_of_nat :: "nat \<Rightarrow> string" where
  "string_of_nat n = (if n < 10 then [digit n] else string_of_nat (n div 10) @ [digit n])"

declare string_of_nat.simps [simp del]

definition string_of_int :: "int \<Rightarrow> string" where
  "string_of_int i = (if i < 0 then ''-'' @ string_of_nat (nat (- i)) else string_of_nat (nat i))"

text \<open>
  \<open>x.toFixed(1)\<close>: the integer \<open>n\<close> nearest to \<open>10 x\<close> (the larger one at a tie), written
  with a point before its last digit. Numbers are exact rationals here; the rounding of
  IEEE doubles is not modelled.
\<close>

definition nearest_tenths :: "rat \<Rightarrow> nat" where
  "nearest_tenths x = nat \<lfloor>10 * x + 1 / 2\<rfloor>"

definition show_tenths :: "nat \<Rightarrow> string" where
  "show_tenths n = string_of_nat (n div 10) @ ''.'' @ [digit n]"

definition toFixed1 :: "rat \<Rightarrow> string" where
  "toFixed1 x = (if x < 0 then ''-'' @ show_tenths (nearest_tenths (- x))
                 else show_tenths (nearest_tenths x))"

record goal_share =
  goal :: string
  count :: nat
  percentage :: string

record summary =
  summary_totalRequests :: nat
  summary_successfulRequests :: nat
  summary_failedRequests :: nat
  successRate :: string
  uniqueUsers :: nat
  popularGoals :: "goal_share list"

record summary_report =
  period :: string
  startDate :: string
  endDate :: string
  summary :: summary
  dailyData :: analytics_result

text \<open>
  \<open>Object.entries(all).sort(([,a], [,b]) => b - a)\<close>, a stable sort by falling count,
  then the share of every goal in the total.
\<close>

definition sortedGoals :: "totals \<Rightarrow> goal_share list" where
  "sortedGoals t =
     map (\<lambda>(g, n). \<lparr>goal = g, count = n,
                     percentage = toFixed1 (of_nat n / of_nat (totalRequests_sum t) * 100)\<rparr>)
       (sort_key (\<lambda>(g, n). - int n) (allGoalSelections t))"

definition getSummaryAnalytics :: "environment \<Rightarrow> service \<Rightarrow> int \<Rightarrow> summary_report" where
  "getSummaryAnalytics env s days =
     (let endDateStr = iso_date (today env);
          startDateStr = iso_date (add_days (- days) (today env));
          rangeData = getDailyAnalytics env s (Some startDateStr) (Some endDateStr);
          t = fold addDay (day_values rangeData) no_totals
      in \<lparr>period = string_of_int days @ '' days'',
          startDate = startDateStr,
          endDate = endDateStr,
          summary =
            \<lparr>summary_totalRequests = totalRequests_sum t,
             summary_successfulRequests = totalSuccessful t,
             summary_failedRequests = totalFailed t,
             successRate =
               (if totalRequests_sum t > 0
                then toFixed1 (of_nat (totalSuccessful t) / of_nat (totalRequests_sum t) * 100)
                else ''0''),
             uniqueUsers = length (uniqueIPs_set t),
             popularGoals = sortedGoals t\<rparr>,
          dailyData = rangeData\<rparr>)"

section \<open>Orders on days, and scenarios\<close>

definition day_lt :: "calendar_day \<Rightarrow> calendar_day \<Rightarrow> bool" where
  "day_lt a b = (day_le a b \<and> a \<noteq> b)"

text \<open>The days whose ISO date has the plain four-digit year.\<close>

definition in_iso_range :: "calendar_day \<Rightarrow> bool" where
  "in_iso_range d = (valid_day d \<and> 0 \<le> year d \<and> year d \<le> 9999)"

text \<open>The days that the loop of a range query visits, from \<open>d\<close> up to \<open>end_day\<close>.\<close>

function days_from_to :: "calendar_day \<Rightarrow> calendar_day \<Rightarrow> calendar_day list" where
  "days_from_to d end_day =
     (if day_le d end_day then d # days_from_to (next_day d) end_day else [])"
  by pat_completeness auto
termination
proof (relation "measures [\<lambda>(d, e). nat (year e - year d + 1),
                           \<lambda>(d, e). 12 - month d,
                           \<lambda>(d, e). 31 - day d]")
  show "wf (measures [\<lambda>(d, e). nat (year e - year d + 1),
                      \<lambda>(d, e). 12 - month d,
                      \<lambda>(d, e). 31 - day d])"
    by simp
next
  fix d end_day :: calendar_day
  assume le: "day_le d end_day"
  obtain y m k where d: "d = Day y m k" by (cases d)
  have y: "y \<le> year end_day"
    using le by (auto simp: day_le_def d)
  have dim: "days_in_month y m \<le> 31"
    by (simp add: days_in_month_def)
  show "((next_day d, end_day), (d, end_day))
        \<in> measures [\<lambda>(d, e). nat (year e - year d + 1),
                     \<lambda>(d, e). 12 - month d,
                     \<lambda>(d, e). 31 - day d]"
    using y dim by (auto simp: d)
qed

declare days_from_to.simps [simp del]

text \<open>
  A clock that shows a real calendar day from 1970 to 9999: no machine clock reads
  earlier, and the ISO year has four digits up to 9999.
\<close>

definition clock_in_range :: "environment \<Rightarrow> bool" where
  "clock_in_range env = (in_iso_range (today env) \<and> 1970 \<le> year (today env))"

text \<open>A clock reading on 31 March 2024 with a writable disk, and the same with a failing write.\<close>

definition scenario_env :: environment where
  "scenario_env =
     \<lparr>today = Day 2024 3 31, timeOfDay = ''10:15:00.000Z'', writeSucceeds = True\<rparr>"

definition failing_env :: environment where
  "failing_env =
     \<lparr>today = Day 2024 3 31, timeOfDay = ''10:15:00.000Z'', writeSucceeds = False\<rparr>"

definition request_r1 :: request_data where
  "request_r1 = \<lparr>req_requestId = Some ''r1'', req_ip = Some ''1.2.3.4'', req_error = None\<rparr>"

text \<open>
  A ledger with an empty record for each of the given days, and the days from \<open>n\<close> days
  before \<open>t\<close> up to \<open>t\<close>.
\<close>

definition ledger_of_days :: "calendar_day list \<Rightarrow> ledger" where
  "ledger_of_days ds = map (\<lambda>t. (iso_date t, getEmptyDayData (iso_date t))) ds"

definition last_days :: "nat \<Rightarrow> calendar_day \<Rightarrow> calendar_day list" where
  "last_days n t = map (\<lambda>i. add_days (- int i) t) (rev [0..<Suc n])"

text \<open>A service whose ledger has a record for each of the last 200 days and today.\<close>

definition service_200_days :: service where
  "service_200_days =
     new_service (Ledger (ledger_of_days (last_days 200 (today scenario_env))))"

text \<open>How often a goal was selected according to the entries of a tally.\<close>

definition tally :: "(string \<times> nat) list \<Rightarrow> string \<Rightarrow> nat" where
  "tally entries g = sum_list (map snd (filter (\<lambda>(k, n). k = g) entries))"

text \<open>
  A service whose ledger has two days: ten requests with eight successes on 30 March
  2024, five requests with five successes on 31 March 2024.
\<close>

definition two_day_ledger :: ledger where
  "two_day_ledger =
     [(''2024-03-30'',
       \<lparr>date = ''2024-03-30'', totalRequests = 10, successfulRequests = 8,
        failedRequests = 2, goalSelections = [], errors = [], averageResponseTime = 0,
        uniqueIPs = [], firstRequest = None, lastRequest = None\<rparr>),
      (''2024-03-31'',
       \<lparr>date = ''2024-03-31'', totalRequests = 5, successfulRequests = 5,
        failedRequests = 0, goalSelections = [], errors = [], averageResponseTime = 0,
        uniqueIPs = [], firstRequest = None, lastRequest = None\<rparr>)]"

definition two_day_service :: service where
  "two_day_service = new_service (Ledger two_day_ledger)"

text \<open>A service whose ledger has one day, with three goal selections and no request.\<close>

definition goal_only_service :: service where
  "goal_only_service =
     new_service (Ledger
       [(''2024-03-31'',
         \<lparr>date = ''2024-03-31'', totalRequests = 0, successfulRequests = 0,
          failedRequests = 0, goalSelections = [(''sleep'', 3)], errors = [],
          averageResponseTime = 0, uniqueIPs = [], firstRequest = None,
          lastRequest = None\<rparr>)])"

section \<open>Properties of the suggestions service\<close>

lemma catalog_entries_three:
  "map_of peptideDatabase g = Some ps \<Longrightarrow> length ps = 3"
  by (auto simp: peptideDatabase_def energy_peptides_def sleep_peptides_def
      focus_peptides_def recovery_peptides_def longevity_peptides_def split: if_splits)

lemma truncate_personalize: "peptide.truncate (personalize age g p) = p"
  by (simp add: personalize_def peptide.truncate_def peptide.extend_def)

lemma note_personalize:
  "personalizedNote (personalize age g p) = getPersonalizedNote age g (name p)"
  by (simp add: personalize_def peptide.extend_def suggestion.fields_def)

lemma name_personalize: "name (personalize age g p) = name p"
  by (simp add: personalize_def peptide.extend_def)

lemma catalog_goals_eq:
  "catalog_goals = [''energy'', ''sleep'', ''focus'', ''recovery'', ''longevity'']"
  by (simp add: catalog_goals_def peptideDatabase_def)



section \<open>Facts about the calendar and ISO dates\<close>

lemma of_char_digit: "(of_char (digit n) :: nat) = 48 + n mod 10"
proof -
  have "48 + n mod 10 < 256" by (rule less_trans [of _ "48 + 10"]) simp_all
  then show ?thesis by (simp add: digit_def)
qed

lemma digit_less_iff: "digit a < digit b \<longleftrightarrow> a mod 10 < b mod 10"
  by (simp add: less_char_def of_char_digit)

lemma digit_eq_iff: "digit a = digit b \<longleftrightarrow> a mod 10 = b mod 10"
proof
  assume "digit a = digit b"
  then have "(of_char (digit a) :: nat) = of_char (digit b)" by simp
  then show "a mod 10 = b mod 10" by (simp add: of_char_digit)
next
  assume "a mod 10 = b mod 10"
  then show "digit a = digit b" by (simp add: digit_def)
qed

lemma digit_not_T: "digit n \<noteq> CHR ''T''"
proof
  assume "digit n = CHR ''T''"
  then have "(of_char (digit n) :: nat) = of_char (CHR ''T'')" by simp
  then show False by (simp add: of_char_digit)
qed

lemma digit_val_digit: "digit_val (digit n) = Some (n mod 10)"
  by (simp add: digit_val_def of_char_digit)

lemma pad2_less: 
  assumes "a < b" and "b < 100" 
  shows "pad2 a < pad2 b"
proof -
  have "a div 10 \<le> b div 10"
    using assms by (simp add: div_le_mono)
  moreover have "a div 10 = b div 10 \<Longrightarrow> a mod 10 < b mod 10"
    using mult_div_mod_eq [of 10 a] mult_div_mod_eq [of 10 b] assms by linarith
  ultimately have "a div 10 < b div 10 \<or> (a div 10 = b div 10 \<and> a mod 10 < b mod 10)"
    by linarith
  moreover have "a div 10 < 10" "b div 10 < 10" using assms by simp_all
  ultimately show ?thesis
    by (auto simp: pad2_def digit_less_iff digit_eq_iff)
qed

lemma length_pad2 [simp]: "length (pad2 n) = 2"
  by (simp add: pad2_def)

lemma length_pad4 [simp]: "length (pad4 n) = 4"
  by (simp add: pad4_def)

lemma append_less_append:
  fixes xs ys :: "'a::linorder list"
  assumes "length xs = length ys"
  shows "xs @ us < ys @ vs \<longleftrightarrow> xs < ys \<or> (xs = ys \<and> us < vs)"
  using assms by (induction xs ys rule: list_induct2) auto

lemma less_same_length_append:
  fixes xs ys :: "'a::linorder list"
  assumes "length xs = length ys" and "xs < ys"
  shows "xs @ us < ys @ vs"
  using assms by (simp add: append_less_append)

lemma pad4_split: "pad4 n = pad2 (n div 100) @ pad2 (n mod 100)"
proof -
  have "n div 100 div 10 = n div 1000" by (simp add: div_mult2_eq)
  moreover have "(n mod 100 div 10) mod 10 = (n div 10) mod 10"
  proof -
    have "n mod 100 div 10 = (n div 10) mod 10"
      using mod_mult2_eq [of n 10 10] by simp
    then show ?thesis by simp
  qed
  moreover have "(n mod 100) mod 10 = n mod 10"
    by (simp add: mod_mod_cancel)
  ultimately show ?thesis
    by (simp add: pad4_def pad2_def digit_eq_iff)
qed

lemma pad4_less:
  assumes "a < b" and "b < 10000"
  shows "pad4 a < pad4 b"
proof -
  have "a div 100 \<le> b div 100"
    using assms by (simp add: div_le_mono)
  moreover have "a div 100 = b div 100 \<Longrightarrow> a mod 100 < b mod 100"
    using mult_div_mod_eq [of 100 a] mult_div_mod_eq [of 100 b] assms by linarith
  ultimately have cases:
    "a div 100 < b div 100 \<or> (a div 100 = b div 100 \<and> a mod 100 < b mod 100)"
    by linarith
  have hi: "b div 100 < 100" using assms by simp
  have lo: "b mod 100 < 100" by simp
  from cases show ?thesis
  proof
    assume "a div 100 < b div 100"
    then have "pad2 (a div 100) < pad2 (b div 100)" using hi by (rule pad2_less)
    then show ?thesis by (simp add: pad4_split append_less_append)
  next
    assume eq: "a div 100 = b div 100 \<and> a mod 100 < b mod 100"
    then have "pad2 (a mod 100) < pad2 (b mod 100)" using lo by (simp add: pad2_less)
    then show ?thesis using eq by (simp add: pad4_split append_less_append)
  qed
qed


lemma days_in_month_le: "days_in_month y m \<le> 31"
  by (simp add: days_in_month_def)

lemma iso_date_less:
  assumes a: "in_iso_range a" and b: "in_iso_range b" and lt: "day_le a b" "a \<noteq> b"
  shows "iso_date a < iso_date b"
proof -
  obtain y1 m1 d1 where A: "a = Day y1 m1 d1" by (cases a)
  obtain y2 m2 d2 where B: "b = Day y2 m2 d2" by (cases b)
  have ra: "0 \<le> y1" "y1 \<le> 9999" "m1 \<le> 12" "d1 \<le> 31"
    using a days_in_month_le [of y1 m1] by (auto simp: in_iso_range_def valid_day_def A)
  have rb: "0 \<le> y2" "y2 \<le> 9999" "m2 \<le> 12" "d2 \<le> 31"
    using b days_in_month_le [of y2 m2] by (auto simp: in_iso_range_def valid_day_def B)
  have iso_a: "iso_date a = pad4 (nat y1) @ (''-'' @ pad2 m1 @ ''-'' @ pad2 d1)"
    using ra by (simp add: iso_date_def iso_year_def A)
  have iso_b: "iso_date b = pad4 (nat y2) @ (''-'' @ pad2 m2 @ ''-'' @ pad2 d2)"
    using rb by (simp add: iso_date_def iso_year_def B)
  consider "y1 < y2" | "y1 = y2" "m1 < m2" | "y1 = y2" "m1 = m2" "d1 < d2"
    using lt by (auto simp: day_le_def A B)
  then show ?thesis
  proof cases
    case 1
    then have "nat y1 < nat y2" "nat y2 < 10000" using ra rb by simp_all
    then have "pad4 (nat y1) < pad4 (nat y2)" by (rule pad4_less)
    then show ?thesis unfolding iso_a iso_b by (simp add: append_less_append)
  next
    case 2
    have "pad2 m1 < pad2 m2" using 2(2) rb by (simp add: pad2_less)
    then have "pad2 m1 @ (''-'' @ pad2 d1) < pad2 m2 @ (''-'' @ pad2 d2)"
      by (simp add: append_less_append)
    then show ?thesis unfolding iso_a iso_b using 2(1) by (simp add: append_less_append)
  next
    case 3
    have "pad2 d1 < pad2 d2" using 3(3) rb by (simp add: pad2_less)
    then show ?thesis unfolding iso_a iso_b using 3(1,2) by (simp add: append_less_append)
  qed
qed

lemma day_le_refl [simp]: "day_le a a"
  by (simp add: day_le_def)

lemma day_le_trans: "day_le a b \<Longrightarrow> day_le b c \<Longrightarrow> day_le a c"
  by (auto simp: day_le_def)

lemma day_le_antisym: "day_le a b \<Longrightarrow> day_le b a \<Longrightarrow> a = b"
  by (cases a; cases b) (auto simp: day_le_def)

lemma day_le_total: "day_le a b \<or> day_le b a"
  by (auto simp: day_le_def)

lemma not_day_le: "\<not> day_le a b \<longleftrightarrow> day_lt b a"
  using day_le_total [of a b] day_le_antisym [of a b] by (auto simp: day_lt_def)

lemma days_in_month_ge: "28 \<le> days_in_month y m"
  by (simp add: days_in_month_def)

lemma valid_next_day: "valid_day d \<Longrightarrow> valid_day (next_day d)"
  using days_in_month_ge [of "year d" "Suc (month d)"] days_in_month_ge [of "year d + 1" 1]
  by (cases d) (auto simp: valid_day_def)

lemma valid_prev_day: "valid_day d \<Longrightarrow> valid_day (prev_day d)"
  using days_in_month_ge [of "year d" "month d - 1"]
  by (cases d) (auto simp: valid_day_def days_in_month_def)

lemma days_in_december [simp]: "days_in_month y 12 = 31"
  by (simp add: days_in_month_def)

lemma prev_next_day: "valid_day d \<Longrightarrow> prev_day (next_day d) = d"
  using days_in_month_ge [of "year d" "month d"]
  by (cases d) (auto simp: valid_day_def)

lemma next_prev_day: "valid_day d \<Longrightarrow> next_day (prev_day d) = d"
  using days_in_month_ge [of "year d" "month d - 1"]
  by (cases d) (auto simp: valid_day_def days_in_month_def)

lemma day_lt_next_day: "valid_day d \<Longrightarrow> day_lt d (next_day d)"
  by (cases d) (auto simp: valid_day_def day_lt_def day_le_def)

lemma next_day_least:
  "valid_day d \<Longrightarrow> valid_day t \<Longrightarrow> day_lt d t \<Longrightarrow> day_le (next_day d) t"
  by (cases d; cases t) (auto simp: valid_day_def day_lt_def day_le_def)

lemma day_lt_prev_day: "valid_day d \<Longrightarrow> day_lt (prev_day d) d"
  using day_lt_next_day [of "prev_day d"] by (simp add: valid_prev_day next_prev_day)

lemma year_next_day: "valid_day d \<Longrightarrow> year (next_day d) \<le> year d + 1 \<and> year d \<le> year (next_day d)"
  by (cases d) auto

lemma year_prev_day: "year d - 1 \<le> year (prev_day d) \<and> year (prev_day d) \<le> year d"
  by (cases d) auto

lemma valid_funpow_prev: "valid_day d \<Longrightarrow> valid_day ((prev_day ^^ n) d)"
  by (induction n) (simp_all add: valid_prev_day)

lemma valid_funpow_next: "valid_day d \<Longrightarrow> valid_day ((next_day ^^ n) d)"
  by (induction n) (simp_all add: valid_next_day)

lemma valid_add_days: "valid_day d \<Longrightarrow> valid_day (add_days k d)"
  by (simp add: add_days_def valid_funpow_prev valid_funpow_next)

lemma year_funpow_prev:
  "year d - int n \<le> year ((prev_day ^^ n) d) \<and> year ((prev_day ^^ n) d) \<le> year d"
proof (induction n)
  case 0
  show ?case by simp
next
  case (Suc n)
  then show ?case
    using year_prev_day [of "(prev_day ^^ n) d"] by simp
qed

lemma day_lt_trans: "day_lt a b \<Longrightarrow> day_lt b c \<Longrightarrow> day_lt a c"
  using day_le_trans [of a b c] day_le_antisym [of b c] by (auto simp: day_lt_def)

lemma day_lt_le_trans: "day_lt a b \<Longrightarrow> day_le b c \<Longrightarrow> day_lt a c"
  using day_le_trans [of a b c] day_le_antisym [of a b] by (auto simp: day_lt_def)

lemma day_le_lt_trans: "day_le a b \<Longrightarrow> day_lt b c \<Longrightarrow> day_lt a c"
  using day_le_trans [of a b c] day_le_antisym [of b c] by (auto simp: day_lt_def)

lemma funpow_prev_less:
  assumes "valid_day d"
  shows "day_lt ((prev_day ^^ (i + Suc k)) d) ((prev_day ^^ i) d)"
proof (induction k)
  case 0
  show ?case using assms by (simp add: day_lt_prev_day valid_funpow_prev)
next
  case (Suc k)
  have "day_lt (prev_day ((prev_day ^^ (i + Suc k)) d)) ((prev_day ^^ (i + Suc k)) d)"
    using assms by (intro day_lt_prev_day valid_funpow_prev)
  then show ?case using Suc by (auto intro: day_lt_trans)
qed

lemma funpow_prev_mono:
  assumes "valid_day d" and "i < j"
  shows "day_lt ((prev_day ^^ j) d) ((prev_day ^^ i) d)"
proof -
  obtain k where "j = i + Suc k"
    using assms(2) less_iff_Suc_add by auto
  then show ?thesis using funpow_prev_less [OF assms(1)] by simp
qed

lemma in_iso_range_funpow_prev:
  assumes "in_iso_range d" and "int n \<le> year d"
  shows "in_iso_range ((prev_day ^^ n) d)"
  using assms year_funpow_prev [of d n] by (simp add: in_iso_range_def valid_funpow_prev)

lemma iso_date_le:
  assumes "in_iso_range a" and "in_iso_range b" and "day_le a b"
  shows "iso_date a \<le> iso_date b"
proof (cases "a = b")
  case True
  then show ?thesis by simp
next
  case False
  then have "iso_date a < iso_date b" using assms by (intro iso_date_less)
  then show ?thesis by simp
qed

lemma iso_date_inj:
  assumes "in_iso_range a" and "in_iso_range b" and "iso_date a = iso_date b"
  shows "a = b"
proof (rule ccontr)
  assume ne: "a \<noteq> b"
  from day_le_total [of a b] show False
  proof
    assume "day_le a b"
    then have "iso_date a < iso_date b" using assms(1,2) ne by (intro iso_date_less)
    then show False using assms(3) by simp
  next
    assume "day_le b a"
    then have "iso_date b < iso_date a" using assms(1,2) ne by (intro iso_date_less) auto
    then show False using assms(3) by simp
  qed
qed

lemma iso_date_less_iff:
  assumes "in_iso_range a" and "in_iso_range b"
  shows "iso_date a < iso_date b \<longleftrightarrow> day_lt a b"
proof
  assume lt: "iso_date a < iso_date b"
  show "day_lt a b"
  proof (rule ccontr)
    assume "\<not> day_lt a b"
    then have "day_le b a" using not_day_le [of b a] day_le_total [of a b] by (auto simp: day_lt_def)
    then have "iso_date b \<le> iso_date a" using assms by (intro iso_date_le)
    then show False using lt by simp
  qed
next
  assume "day_lt a b"
  then show "iso_date a < iso_date b" using assms by (auto simp: day_lt_def intro: iso_date_less)
qed

lemma digits_val_pad2: "n < 100 \<Longrightarrow> digits_val (pad2 n) = Some n"
proof -
  assume "n < 100"
  then have "n div 10 mod 10 = n div 10" by simp
  then show ?thesis
    by (simp add: digits_val_def pad2_def digit_val_digit)
qed

lemma digits_val_append_pad2:
  "digits_val xs = Some a \<Longrightarrow> n < 100 \<Longrightarrow> digits_val (xs @ pad2 n) = Some (100 * a + n)"
proof -
  assume xs: "digits_val xs = Some a" and n: "n < 100"
  from n have "n div 10 mod 10 = n div 10" by simp
  moreover have "10 * (10 * a + n div 10) + n mod 10 = 100 * a + n"
  proof -
    have "10 * (10 * a + n div 10) + n mod 10 = 100 * a + (10 * (n div 10) + n mod 10)"
      by (simp add: algebra_simps)
    then show ?thesis by simp
  qed
  ultimately show ?thesis
    using xs by (simp add: digits_val_def pad2_def digit_val_digit)
qed

lemma digits_val_pad4: "n < 10000 \<Longrightarrow> digits_val (pad4 n) = Some n"
proof -
  assume n: "n < 10000"
  then have hi: "n div 100 < 100" by simp
  have "digits_val (pad2 (n div 100) @ pad2 (n mod 100)) = Some (100 * (n div 100) + n mod 100)"
    by (rule digits_val_append_pad2) (simp_all add: digits_val_pad2 hi)
  then show ?thesis by (simp add: pad4_split)
qed

lemma iso_date_plain:
  "in_iso_range t \<Longrightarrow>
   iso_date t = pad4 (nat (year t)) @ ''-'' @ pad2 (month t) @ ''-'' @ pad2 (day t)"
  by (simp add: iso_date_def iso_year_def in_iso_range_def)

lemma iso_date_nonempty: "iso_date t \<noteq> []"
  by (simp add: iso_date_def)

lemma new_Date_iso_date:
  assumes "in_iso_range t"
  shows "new_Date (iso_date t) = Some t"
proof -
  let ?y = "pad4 (nat (year t))" and ?m = "pad2 (month t)" and ?d = "pad2 (day t)"
  have s: "iso_date t = ?y @ CHR ''-'' # ?m @ CHR ''-'' # ?d"
    using assms by (simp add: iso_date_plain)
  have rng: "nat (year t) < 10000" "month t < 100" "day t < 100" "1 \<le> month t" "month t \<le> 12"
    "1 \<le> day t" "day t \<le> 31" "day t \<le> days_in_month (year t) (month t)" "0 \<le> year t"
    using assms days_in_month_le [of "year t" "month t"]
    by (auto simp: in_iso_range_def valid_day_def)
  have len: "length (iso_date t) = 10" by (simp add: s)
  have at4: "iso_date t ! 4 = CHR ''-''"
    by (simp add: s nth_append)
  have at7: "iso_date t ! 7 = CHR ''-''"
    by (simp add: s nth_append pad2_def)
  have y: "digits_val (take 4 (iso_date t)) = Some (nat (year t))"
    using rng(1) by (simp add: s digits_val_pad4)
  have m: "digits_val (take 2 (drop 5 (iso_date t))) = Some (month t)"
    using rng(2) by (simp add: s digits_val_pad2)
  have d: "digits_val (drop 8 (iso_date t)) = Some (day t)"
    using rng(3) by (simp add: s digits_val_pad2)
  have "new_Date (iso_date t) = Some (Day (int (nat (year t))) (month t) (day t))"
    unfolding new_Date_def using len at4 at7 y m d rng by simp
  then show ?thesis using rng(9) by simp
qed

lemma T_not_digit: "CHR ''T'' \<noteq> digit n"
  using digit_not_T [of n] by (rule not_sym)

lemma T_notin_pad2: "CHR ''T'' \<notin> set (pad2 n)"
  by (simp add: pad2_def T_not_digit)

lemma T_notin_pad4: "CHR ''T'' \<notin> set (pad4 n)"
  by (simp add: pad4_def T_not_digit)

lemma T_notin_iso_date: "CHR ''T'' \<notin> set (iso_date t)"
  by (simp add: iso_date_def iso_year_def pad6_def T_notin_pad2 T_notin_pad4 T_not_digit)

lemma date_part_toISOString: "date_part (toISOString env) = iso_date (today env)"
proof -
  have "takeWhile (\<lambda>c. c \<noteq> CHR ''T'') (iso_date (today env) @ CHR ''T'' # timeOfDay env) =
      iso_date (today env)"
    using T_notin_iso_date [of "today env"] by (intro takeWhile_tail [THEN trans]) auto
  then show ?thesis by (simp add: date_part_def toISOString_def)
qed

section \<open>Properties of the analytics service\<close>

subsection \<open>Recording on a date that already has a record\<close>

text \<open>
  Claim C3. Recording the goal selection "sleep" and then a successful request from
  1.2.3.4 on the same date should leave a day record with one request and one caller.
  The code does not get there: the goal selection stores the new record with its
  caller set turned into an array, the request event reads that array back and calls
  \<open>add\<close> on it, the \<open>TypeError\<close> is caught, and the request is never written. The day
  record of the query still has no request and no caller.
\<close>

theorem goal_then_request_scenario:
  "getDailyAnalytics scenario_env
     (snd (logSuccessfulRequest scenario_env request_r1
        (snd (logGoalSelection scenario_env ''sleep'' (new_service NoFile)))))
     (Some ''2024-03-31'') None =
   DayResult ''2024-03-31''
     \<lparr>date = ''2024-03-31'', totalRequests = 0, successfulRequests = 0, failedRequests = 0,
      goalSelections = [(''sleep'', 1)], errors = [], averageResponseTime = 0,
      uniqueIPs = [], firstRequest = None, lastRequest = None\<rparr>"
  by code_simp

text \<open>
  Claim C1. After two successful requests on one date, starting from an empty ledger,
  the day record should count two requests. The second event finds the stored record
  with an array for \<open>uniqueIPs\<close>, fails inside \<open>updateDailyAnalytics\<close> and is dropped:
  the ledger keeps counting one request, while the counters in memory say two.
\<close>

theorem two_requests_counted_once:
  "snd (logSuccessfulRequest scenario_env request_r1
     (snd (logSuccessfulRequest scenario_env request_r1 (new_service (Ledger []))))) =
   \<lparr>dailyCounters = \<lparr>counter_requests = 2, counter_goalSelections = [],
                      counter_errors = 0, counter_successfulRequests = 2\<rparr>,
    analyticsFile = Ledger
      [(''2024-03-31'',
        \<lparr>date = ''2024-03-31'', totalRequests = 1, successfulRequests = 1, failedRequests = 0,
         goalSelections = [], errors = [], averageResponseTime = 0,
         uniqueIPs = [''1.2.3.4''],
         firstRequest = Some ''2024-03-31T10:15:00.000Z'',
         lastRequest = Some ''2024-03-31T10:15:00.000Z''\<rparr>)],
    console = [(''Error updating daily analytics:'',
                TypeError ''dayData.uniqueIPs.add is not a function'')]\<rparr>"
  by code_simp

text \<open>
  Claim C6, as stated, fails when the ledger file is missing: the query of a single date
  is answered with the error object, not with the empty record.
\<close>

theorem single_day_query_missing_file:
  "getDailyAnalytics scenario_env (new_service NoFile) (Some ''2024-03-31'') None =
     ErrorResult ''Failed to read analytics data'' \<and>
   getDailyAnalytics scenario_env (new_service NoFile) (Some ''2024-03-31'') None \<noteq>
     DayResult ''2024-03-31'' (getEmptyDayData ''2024-03-31'')"
  by code_simp

text \<open>
  Claim C6, amended. When the ledger file can be read and parsed, the query of a single
  (non-empty) date string returns the stored record of that date when there is one and
  otherwise the empty record: all counts zero, empty collections, no timestamps. The
  query is a function of the file and the date alone, so repeating it gives the same
  answer. When the file is missing or is not JSON the answer is the error object.
\<close>

theorem single_day_query:
  "(\<forall>l. analyticsFile s = Ledger l \<and> d \<noteq> [] \<longrightarrow>
      getDailyAnalytics env s (Some d) None =
        DayResult d
          (case map_of l d of
             Some r \<Rightarrow> r
           | None \<Rightarrow>
               \<lparr>date = d, totalRequests = 0, successfulRequests = 0, failedRequests = 0,
                goalSelections = [], errors = [], averageResponseTime = 0,
                uniqueIPs = [], firstRequest = None, lastRequest = None\<rparr>)) \<and>
   (analyticsFile s = NoFile \<or> analyticsFile s = NotJson \<longrightarrow>
      getDailyAnalytics env s (Some d) None = ErrorResult ''Failed to read analytics data'')"
  by (auto simp: getDailyAnalytics_def readLedger_def falsy_def or_else_def recordOrEmpty_def
      getEmptyDayData_def split: option.splits)

text \<open>
  The theorem on an empty ledger and on a file that is not JSON.
\<close>

theorem single_day_query_witness:
  "analyticsFile (new_service (Ledger [])) = Ledger [] \<and> ''2024-03-31'' \<noteq> [] \<and>
   getDailyAnalytics scenario_env (new_service (Ledger [])) (Some ''2024-03-31'') None =
     DayResult ''2024-03-31''
       \<lparr>date = ''2024-03-31'', totalRequests = 0, successfulRequests = 0, failedRequests = 0,
        goalSelections = [], errors = [], averageResponseTime = 0,
        uniqueIPs = [], firstRequest = None, lastRequest = None\<rparr> \<and>
   analyticsFile (new_service NotJson) = NotJson \<and>
   getDailyAnalytics scenario_env (new_service NotJson) (Some ''2024-03-31'') None =
     ErrorResult ''Failed to read analytics data''"
proof -
  have f: "analyticsFile (new_service (Ledger [])) = Ledger []"
    by (simp add: new_service_def)
  have n: "analyticsFile (new_service NotJson) = NotJson"
    by (simp add: new_service_def)
  have ne: "''2024-03-31'' \<noteq> []" by simp
  from single_day_query [of "new_service (Ledger [])" "''2024-03-31''" scenario_env] f ne
  have a: "getDailyAnalytics scenario_env (new_service (Ledger [])) (Some ''2024-03-31'') None =
     DayResult ''2024-03-31''
       \<lparr>date = ''2024-03-31'', totalRequests = 0, successfulRequests = 0, failedRequests = 0,
        goalSelections = [], errors = [], averageResponseTime = 0,
        uniqueIPs = [], firstRequest = None, lastRequest = None\<rparr>"
    by simp
  from single_day_query [of "new_service NotJson" "''2024-03-31''" scenario_env] n
  have b: "getDailyAnalytics scenario_env (new_service NotJson) (Some ''2024-03-31'') None =
     ErrorResult ''Failed to read analytics data''"
    by simp
  show ?thesis
    by (intro conjI) (rule f ne a n b)+
qed

subsection \<open>Recording on an unreadable ledger\<close>

lemma today_not_before_cutoff:
  assumes "clock_in_range env"
  shows "\<not> iso_date (today env) < cutoffDate env"
proof -
  let ?t = "today env"
  have r: "in_iso_range ?t" and y: "int 90 \<le> year ?t"
    using assms by (simp_all add: clock_in_range_def)
  have v: "valid_day ?t" using r by (simp add: in_iso_range_def)
  have c: "cutoffDate env = iso_date ((prev_day ^^ 90) ?t)"
    by (simp add: cutoffDate_def add_days_def)
  have "in_iso_range ((prev_day ^^ 90) ?t)"
    using r y by (rule in_iso_range_funpow_prev)
  moreover have "day_lt ((prev_day ^^ 90) ?t) ((prev_day ^^ 0) ?t)"
    using v by (rule funpow_prev_mono) simp
  ultimately have "iso_date ((prev_day ^^ 90) ?t) < iso_date ?t"
    using r by (simp add: iso_date_less_iff)
  then show ?thesis unfolding c by simp
qed

lemma updateDailyAnalytics_result [simp]: "fst (updateDailyAnalytics env d ev s) = Inr ()"
  by (simp add: updateDailyAnalytics_def split: sum.splits)

lemma logGoalSelection_file:
  "analyticsFile (snd (logGoalSelection env g s)) =
     (case updateDailyAnalytics_try env (analyticsFile s) (iso_date (today env)) (goalSelection g) of
        Inl e \<Rightarrow> analyticsFile s | Inr f \<Rightarrow> f)"
  by (simp add: logGoalSelection_def updateDailyAnalytics_def Let_def date_part_toISOString
      split: sum.splits)

lemma logSuccessfulRequest_file:
  "analyticsFile (snd (logSuccessfulRequest env r s)) =
     (case updateDailyAnalytics_try env (analyticsFile s) (iso_date (today env)) (successfulRequest r) of
        Inl e \<Rightarrow> analyticsFile s | Inr f \<Rightarrow> f)"
  by (simp add: logSuccessfulRequest_def updateDailyAnalytics_def Let_def date_part_toISOString
      split: sum.splits)

lemma logFailedRequest_file:
  "analyticsFile (snd (logFailedRequest env r s)) =
     (case updateDailyAnalytics_try env (analyticsFile s) (iso_date (today env)) (failedRequest r) of
        Inl e \<Rightarrow> analyticsFile s | Inr f \<Rightarrow> f)"
  by (simp add: logFailedRequest_def updateDailyAnalytics_def Let_def date_part_toISOString
      split: sum.splits)

lemma logGoalSelection_console:
  "console (snd (logGoalSelection env g s)) =
     (case updateDailyAnalytics_try env (analyticsFile s) (iso_date (today env)) (goalSelection g) of
        Inl e \<Rightarrow> console s @ [(''Error updating daily analytics:'', e)] | Inr f \<Rightarrow> console s)"
  by (simp add: logGoalSelection_def updateDailyAnalytics_def Let_def date_part_toISOString
      split: sum.splits)

lemma logSuccessfulRequest_console:
  "console (snd (logSuccessfulRequest env r s)) =
     (case updateDailyAnalytics_try env (analyticsFile s) (iso_date (today env)) (successfulRequest r) of
        Inl e \<Rightarrow> console s @ [(''Error updating daily analytics:'', e)] | Inr f \<Rightarrow> console s)"
  by (simp add: logSuccessfulRequest_def updateDailyAnalytics_def Let_def date_part_toISOString
      split: sum.splits)

lemma logFailedRequest_console:
  "console (snd (logFailedRequest env r s)) =
     (case updateDailyAnalytics_try env (analyticsFile s) (iso_date (today env)) (failedRequest r) of
        Inl e \<Rightarrow> console s @ [(''Error updating daily analytics:'', e)] | Inr f \<Rightarrow> console s)"
  by (simp add: logFailedRequest_def updateDailyAnalytics_def Let_def date_part_toISOString
      split: sum.splits)

lemma loadOrEmpty_unreadable:
  "f = NoFile \<or> f = NotJson \<Longrightarrow> loadOrEmpty f = []"
  by (auto simp: loadOrEmpty_def readLedger_def)

text \<open>On an unreadable file, with a write that succeeds, the update stores one fresh record.\<close>

lemma try_goal_fresh:
  assumes "loadOrEmpty f = []" and "clock_in_range env" and "writeSucceeds env"
  shows "updateDailyAnalytics_try env f (iso_date (today env)) (goalSelection g) =
    Inr (Ledger [(iso_date (today env),
      (getEmptyDayData (iso_date (today env)))\<lparr>goalSelections := [(g, 1)]\<rparr>)])"
  using assms today_not_before_cutoff [OF assms(2)]
  by (simp add: updateDailyAnalytics_try_def Let_def newDayData_def serializable_def
      Array_from_def incrementGoal_def writeLedger_def getEmptyDayData_def)

lemma try_success_fresh:
  assumes "loadOrEmpty f = []" and "clock_in_range env" and "writeSucceeds env"
  shows "updateDailyAnalytics_try env f (iso_date (today env)) (successfulRequest r) =
    Inr (Ledger [(iso_date (today env),
      (getEmptyDayData (iso_date (today env)))
        \<lparr>totalRequests := 1, successfulRequests := 1,
         uniqueIPs := [or_else (req_ip r) ''unknown''],
         firstRequest := Some (toISOString env), lastRequest := Some (toISOString env)\<rparr>)])"
  using assms today_not_before_cutoff [OF assms(2)]
  by (simp add: updateDailyAnalytics_try_def Let_def newDayData_def serializable_def
      Array_from_def uniqueIPs_add_def writeLedger_def getEmptyDayData_def or_else_def)

lemma try_failed_fresh:
  assumes "loadOrEmpty f = []" and "clock_in_range env" and "writeSucceeds env"
  shows "updateDailyAnalytics_try env f (iso_date (today env)) (failedRequest r) =
    Inr (Ledger [(iso_date (today env),
      (getEmptyDayData (iso_date (today env)))
        \<lparr>totalRequests := 1, failedRequests := 1,
         errors := [\<lparr>error = req_error r, timestamp = toISOString env,
                     requestId = req_requestId r\<rparr>],
         uniqueIPs := [or_else (req_ip r) ''unknown''],
         firstRequest := Some (toISOString env), lastRequest := Some (toISOString env)\<rparr>)])"
  using assms today_not_before_cutoff [OF assms(2)]
  by (simp add: updateDailyAnalytics_try_def Let_def newDayData_def serializable_def
      Array_from_def uniqueIPs_add_def writeLedger_def getEmptyDayData_def or_else_def)

text \<open>
  Claim C4. When the ledger file is missing or is not valid JSON, each of the three
  record operations treats the ledger as empty and returns normally; the read failure
  is not passed on. With a write that succeeds, the file afterwards holds a fresh
  ledger with exactly the record of the event, and nothing was written to the console.
\<close>

theorem record_on_unreadable_ledger:
  assumes "analyticsFile s = NoFile \<or> analyticsFile s = NotJson"
    and "clock_in_range env"
  shows "fst (logGoalSelection env g s) = Inr () \<and>
         fst (logSuccessfulRequest env r s) = Inr () \<and>
         fst (logFailedRequest env r s) = Inr () \<and>
         (writeSucceeds env \<longrightarrow>
            analyticsFile (snd (logGoalSelection env g s)) =
              Ledger [(iso_date (today env),
                (getEmptyDayData (iso_date (today env)))\<lparr>goalSelections := [(g, 1)]\<rparr>)] \<and>
            console (snd (logGoalSelection env g s)) = console s \<and>
            analyticsFile (snd (logSuccessfulRequest env r s)) =
              Ledger [(iso_date (today env),
                (getEmptyDayData (iso_date (today env)))
                  \<lparr>totalRequests := 1, successfulRequests := 1,
                   uniqueIPs := [or_else (req_ip r) ''unknown''],
                   firstRequest := Some (toISOString env),
                   lastRequest := Some (toISOString env)\<rparr>)] \<and>
            console (snd (logSuccessfulRequest env r s)) = console s \<and>
            analyticsFile (snd (logFailedRequest env r s)) =
              Ledger [(iso_date (today env),
                (getEmptyDayData (iso_date (today env)))
                  \<lparr>totalRequests := 1, failedRequests := 1,
                   errors := [\<lparr>error = req_error r, timestamp = toISOString env,
                               requestId = req_requestId r\<rparr>],
                   uniqueIPs := [or_else (req_ip r) ''unknown''],
                   firstRequest := Some (toISOString env),
                   lastRequest := Some (toISOString env)\<rparr>)] \<and>
            console (snd (logFailedRequest env r s)) = console s)"
proof -
  have e: "loadOrEmpty (analyticsFile s) = []"
    using assms(1) by (rule loadOrEmpty_unreadable)
  have res: "fst (logGoalSelection env g s) = Inr ()"
    "fst (logSuccessfulRequest env r s) = Inr ()"
    "fst (logFailedRequest env r s) = Inr ()"
    by (simp_all add: logGoalSelection_def logSuccessfulRequest_def logFailedRequest_def Let_def)
  show ?thesis
  proof (intro conjI impI)
    assume w: "writeSucceeds env"
    note g = try_goal_fresh [OF e assms(2) w, of g]
      and a = try_success_fresh [OF e assms(2) w, of r]
      and b = try_failed_fresh [OF e assms(2) w, of r]
    show "analyticsFile (snd (logGoalSelection env g s)) =
        Ledger [(iso_date (today env),
          (getEmptyDayData (iso_date (today env)))\<lparr>goalSelections := [(g, 1)]\<rparr>)]"
      by (simp add: logGoalSelection_file g)
    show "console (snd (logGoalSelection env g s)) = console s"
      by (simp add: logGoalSelection_console g)
    show "analyticsFile (snd (logSuccessfulRequest env r s)) =
              Ledger [(iso_date (today env),
                (getEmptyDayData (iso_date (today env)))
                  \<lparr>totalRequests := 1, successfulRequests := 1,
                   uniqueIPs := [or_else (req_ip r) ''unknown''],
                   firstRequest := Some (toISOString env),
                   lastRequest := Some (toISOString env)\<rparr>)]"
      by (simp add: logSuccessfulRequest_file a)
    show "console (snd (logSuccessfulRequest env r s)) = console s"
      by (simp add: logSuccessfulRequest_console a)
    show "analyticsFile (snd (logFailedRequest env r s)) =
              Ledger [(iso_date (today env),
                (getEmptyDayData (iso_date (today env)))
                  \<lparr>totalRequests := 1, failedRequests := 1,
                   errors := [\<lparr>error = req_error r, timestamp = toISOString env,
                               requestId = req_requestId r\<rparr>],
                   uniqueIPs := [or_else (req_ip r) ''unknown''],
                   firstRequest := Some (toISOString env),
                   lastRequest := Some (toISOString env)\<rparr>)]"
      by (simp add: logFailedRequest_file b)
    show "console (snd (logFailedRequest env r s)) = console s"
      by (simp add: logFailedRequest_console b)
  qed (rule res)+
qed


lemma clock_in_range_scenario: "clock_in_range scenario_env"
  by (simp add: clock_in_range_def in_iso_range_def valid_day_def scenario_env_def
      days_in_month_def)

lemma iso_date_scenario: "iso_date (today scenario_env) = ''2024-03-31''"
  by code_simp

lemma toISOString_scenario: "toISOString scenario_env = ''2024-03-31T10:15:00.000Z''"
  by code_simp

text \<open>
  The theorem for a successful request on a file that is not JSON.
\<close>

theorem record_on_unreadable_ledger_witness:
  "(analyticsFile (new_service NotJson) = NoFile \<or> analyticsFile (new_service NotJson) = NotJson) \<and>
   clock_in_range scenario_env \<and> writeSucceeds scenario_env \<and>
   fst (logSuccessfulRequest scenario_env request_r1 (new_service NotJson)) = Inr () \<and>
   analyticsFile (snd (logSuccessfulRequest scenario_env request_r1 (new_service NotJson))) =
     Ledger [(''2024-03-31'',
       \<lparr>date = ''2024-03-31'', totalRequests = 1, successfulRequests = 1, failedRequests = 0,
        goalSelections = [], errors = [], averageResponseTime = 0,
        uniqueIPs = [''1.2.3.4''],
        firstRequest = Some ''2024-03-31T10:15:00.000Z'',
        lastRequest = Some ''2024-03-31T10:15:00.000Z''\<rparr>)]"
proof -
  have h1: "analyticsFile (new_service NotJson) = NoFile \<or>
      analyticsFile (new_service NotJson) = NotJson"
    by (simp add: new_service_def)
  have w: "writeSucceeds scenario_env"
    by (simp add: scenario_env_def)
  have ip: "or_else (req_ip request_r1) ''unknown'' = ''1.2.3.4''"
    by (simp add: or_else_def request_r1_def)
  note t = record_on_unreadable_ledger [OF h1 clock_in_range_scenario, of "''sleep''" request_r1]
  from t have r: "fst (logSuccessfulRequest scenario_env request_r1 (new_service NotJson)) = Inr ()"
    by (elim conjE)
  from t w have "analyticsFile (snd (logSuccessfulRequest scenario_env request_r1 (new_service NotJson))) =
      Ledger [(iso_date (today scenario_env),
                (getEmptyDayData (iso_date (today scenario_env)))
                  \<lparr>totalRequests := 1, successfulRequests := 1,
                   uniqueIPs := [or_else (req_ip request_r1) ''unknown''],
                   firstRequest := Some (toISOString scenario_env),
                   lastRequest := Some (toISOString scenario_env)\<rparr>)]"
    by (elim conjE impE) 
  then have f: "analyticsFile (snd (logSuccessfulRequest scenario_env request_r1 (new_service NotJson))) =
     Ledger [(''2024-03-31'',
       \<lparr>date = ''2024-03-31'', totalRequests = 1, successfulRequests = 1, failedRequests = 0,
        goalSelections = [], errors = [], averageResponseTime = 0,
        uniqueIPs = [''1.2.3.4''],
        firstRequest = Some ''2024-03-31T10:15:00.000Z'',
        lastRequest = Some ''2024-03-31T10:15:00.000Z''\<rparr>)]"
    by (simp only: iso_date_scenario toISOString_scenario ip) (simp add: getEmptyDayData_def)
  show ?thesis
    by (intro conjI) (rule h1 clock_in_range_scenario w r f)+
qed

subsection \<open>What every record call does\<close>

lemma serializable_parsed_goal:
  "serializable ((parsedDayData x)\<lparr>goalSelections := G\<rparr>) = x\<lparr>goalSelections := G\<rparr>"
  by (simp add: serializable_def parsedDayData_def Array_from_def)

lemma serializable_new_goal:
  "serializable ((newDayData d)\<lparr>goalSelections := G\<rparr>) = (getEmptyDayData d)\<lparr>goalSelections := G\<rparr>"
  by (simp add: serializable_def newDayData_def getEmptyDayData_def Array_from_def)

lemma try_goal:
  assumes "writeSucceeds env"
  shows "updateDailyAnalytics_try env f d (goalSelection g) =
    Inr (Ledger (filter (\<lambda>(k, _). \<not> k < cutoffDate env)
      (AList.update d
         ((recordOrEmpty (loadOrEmpty f) d)
            \<lparr>goalSelections := incrementGoal g (goalSelections (recordOrEmpty (loadOrEmpty f) d))\<rparr>)
         (loadOrEmpty f))))"
proof (cases "map_of (loadOrEmpty f) d")
  case None
  then show ?thesis
    using assms
    by (simp add: updateDailyAnalytics_try_def Let_def recordOrEmpty_def writeLedger_def
        serializable_new_goal) (simp add: newDayData_def getEmptyDayData_def)
next
  case (Some x)
  then show ?thesis
    using assms
    by (simp add: updateDailyAnalytics_try_def Let_def recordOrEmpty_def writeLedger_def
        serializable_parsed_goal) (simp add: parsedDayData_def)
qed

lemma try_goal_write_fails:
  "\<not> writeSucceeds env \<Longrightarrow>
   updateDailyAnalytics_try env f d (goalSelection g) = Inl (IOError ''EACCES: permission denied'')"
  by (simp add: updateDailyAnalytics_try_def Let_def writeLedger_def)

lemma try_write_fails:
  "\<not> writeSucceeds env \<Longrightarrow> \<exists>e. updateDailyAnalytics_try env f d ev = Inl e"
  by (simp add: updateDailyAnalytics_try_def Let_def writeLedger_def split: sum.splits)

lemma map_of_kept:
  assumes "\<not> d < c"
  shows "map_of (filter (\<lambda>(k, _). \<not> k < c) (AList.update d v l)) d = Some v"
proof -
  have "map_of (AList.update d v l) d = Some v"
    by (simp add: update_conv')
  then have "map_of (filter (case_prod (\<lambda>k _. \<not> k < c)) (AList.update d v l)) d = Some v"
    using assms by (rule map_of_filter_in)
  then show ?thesis by simp
qed

lemma try_success_absent:
  assumes "map_of (loadOrEmpty f) d = None" and "writeSucceeds env"
  shows "updateDailyAnalytics_try env f d (successfulRequest r) =
    Inr (Ledger (filter (\<lambda>(k, _). \<not> k < cutoffDate env)
      (AList.update d
         ((getEmptyDayData d)
            \<lparr>totalRequests := 1, successfulRequests := 1,
             uniqueIPs := [or_else (req_ip r) ''unknown''],
             firstRequest := Some (toISOString env), lastRequest := Some (toISOString env)\<rparr>)
         (loadOrEmpty f))))"
  using assms
  by (simp add: updateDailyAnalytics_try_def Let_def newDayData_def serializable_def
      Array_from_def uniqueIPs_add_def writeLedger_def getEmptyDayData_def or_else_def)

lemma try_failed_absent:
  assumes "map_of (loadOrEmpty f) d = None" and "writeSucceeds env"
  shows "updateDailyAnalytics_try env f d (failedRequest r) =
    Inr (Ledger (filter (\<lambda>(k, _). \<not> k < cutoffDate env)
      (AList.update d
         ((getEmptyDayData d)
            \<lparr>totalRequests := 1, failedRequests := 1,
             errors := [\<lparr>error = req_error r, timestamp = toISOString env,
                         requestId = req_requestId r\<rparr>],
             uniqueIPs := [or_else (req_ip r) ''unknown''],
             firstRequest := Some (toISOString env), lastRequest := Some (toISOString env)\<rparr>)
         (loadOrEmpty f))))"
  using assms
  by (simp add: updateDailyAnalytics_try_def Let_def newDayData_def serializable_def
      Array_from_def uniqueIPs_add_def writeLedger_def getEmptyDayData_def or_else_def)



lemma clock_in_range_failing: "clock_in_range failing_env"
  by (simp add: clock_in_range_def in_iso_range_def valid_day_def failing_env_def
      days_in_month_def)


subsection \<open>Retention\<close>

lemma add_days_neg: "add_days (- int i) t = (prev_day ^^ i) t"
proof (cases "i = 0")
  case True
  then show ?thesis by (simp add: add_days_def)
next
  case False
  then have "\<not> 0 \<le> - int i" by simp
  then have "add_days (- int i) t = (prev_day ^^ nat (- (- int i))) t"
    unfolding add_days_def by (simp only: if_False)
  then show ?thesis by simp
qed

lemma cutoffDate_funpow: "cutoffDate env = iso_date ((prev_day ^^ 90) (today env))"
  by (simp add: cutoffDate_def add_days_def)

lemma keys_filter: "fst ` set (filter (\<lambda>(k, _). P k) xs) = {k \<in> fst ` set xs. P k}"
  by (induction xs) auto

lemma try_keys:
  assumes "updateDailyAnalytics_try env file d ev = Inr file'"
  shows "\<exists>l'. file' = Ledger l' \<and>
    fst ` set l' = {k \<in> insert d (fst ` set (loadOrEmpty file)). \<not> k < cutoffDate env}"
proof -
  obtain dd where "file' = Ledger (filter (\<lambda>(k, _). \<not> k < cutoffDate env)
      (AList.update d dd (loadOrEmpty file)))"
    using assms
    by (auto simp: updateDailyAnalytics_try_def Let_def writeLedger_def
        split: sum.splits if_splits)
  then have "file' = Ledger (filter (\<lambda>(k, _). \<not> k < cutoffDate env)
      (AList.update d dd (loadOrEmpty file))) \<and>
    fst ` set (filter (\<lambda>(k, _). \<not> k < cutoffDate env) (AList.update d dd (loadOrEmpty file))) =
      {k \<in> insert d (fst ` set (loadOrEmpty file)). \<not> k < cutoffDate env}"
    unfolding keys_filter dom_update by simp
  then show ?thesis by blast
qed

lemma before_cutoff_iff:
  assumes "clock_in_range env" and "int i \<le> year (today env)"
  shows "iso_date (add_days (- int i) (today env)) < cutoffDate env \<longleftrightarrow> 90 < i"
proof -
  let ?t = "today env"
  have r: "in_iso_range ?t" and y: "int 90 \<le> year ?t"
    using assms(1) by (simp_all add: clock_in_range_def)
  have v: "valid_day ?t" using r by (simp add: in_iso_range_def)
  have ri: "in_iso_range ((prev_day ^^ i) ?t)"
    using r assms(2) by (rule in_iso_range_funpow_prev)
  have rc: "in_iso_range ((prev_day ^^ 90) ?t)"
    using r y by (rule in_iso_range_funpow_prev)
  have "day_lt ((prev_day ^^ i) ?t) ((prev_day ^^ 90) ?t) \<longleftrightarrow> 90 < i"
  proof
    assume lt: "day_lt ((prev_day ^^ i) ?t) ((prev_day ^^ 90) ?t)"
    show "90 < i"
    proof (rule ccontr)
      assume "\<not> 90 < i"
      then consider "i = 90" | "i < 90" by linarith
      then show False
      proof cases
        case 1
        then show False using lt by (simp add: day_lt_def)
      next
        case 2
        then have "day_lt ((prev_day ^^ 90) ?t) ((prev_day ^^ i) ?t)"
          using v by (intro funpow_prev_mono)
        then show False
          using lt day_le_antisym by (auto simp: day_lt_def)
      qed
    qed
  next
    assume "90 < i"
    then show "day_lt ((prev_day ^^ i) ?t) ((prev_day ^^ 90) ?t)"
      using v by (intro funpow_prev_mono)
  qed
  then show ?thesis
    using ri rc by (simp add: add_days_neg cutoffDate_funpow iso_date_less_iff)
qed


lemma keys_ledger_of_days: "fst ` set (ledger_of_days ds) = iso_date ` set ds"
  by (auto simp: ledger_of_days_def image_iff)

lemma last_days_member: "i \<le> n \<Longrightarrow> add_days (- int i) t \<in> set (last_days n t)"
proof -
  assume "i \<le> n"
  then have "i \<in> {0..<Suc n}" by auto
  then have "add_days (- int i) t \<in> (\<lambda>i. add_days (- int i) t) ` {0..<Suc n}"
    by (rule imageI)
  then show ?thesis by (simp only: last_days_def set_map set_rev set_upt)
qed

lemma key_last_days:
  "i \<le> n \<Longrightarrow> iso_date (add_days (- int i) t) \<in> fst ` set (ledger_of_days (last_days n t))"
  by (simp add: keys_ledger_of_days last_days_member)

lemma loadOrEmpty_Ledger [simp]: "loadOrEmpty (Ledger l) = l"
  by (simp add: loadOrEmpty_def readLedger_def)

lemma service_200_days_file:
  "loadOrEmpty (analyticsFile service_200_days) =
     ledger_of_days (last_days 200 (today scenario_env))"
  by (simp add: service_200_days_def new_service_def)

lemma writeSucceeds_scenario: "writeSucceeds scenario_env"
  by (simp add: scenario_env_def)

lemma cutoff_scenario: "iso_date (add_days (- 90) (today scenario_env)) = ''2024-01-01''"
  by code_simp

lemma cutoff_next_scenario: "iso_date (add_days (- 89) (today scenario_env)) = ''2024-01-02''"
  by code_simp

lemma goal_on_200_days:
  "updateDailyAnalytics_try scenario_env (analyticsFile service_200_days)
     (iso_date (today scenario_env)) (goalSelection ''sleep'') =
   Inr (analyticsFile (snd (logGoalSelection scenario_env ''sleep'' service_200_days)))"
  by (simp add: logGoalSelection_file try_goal [OF writeSucceeds_scenario])

lemma keys_after_goal_on_200_days:
  "fst ` set (loadOrEmpty (analyticsFile (snd (logGoalSelection scenario_env ''sleep''
       service_200_days)))) =
   {k \<in> insert (iso_date (today scenario_env))
           (iso_date ` set (last_days 200 (today scenario_env))).
      \<not> k < cutoffDate scenario_env}"
proof -
  obtain l' where l': "analyticsFile (snd (logGoalSelection scenario_env ''sleep''
       service_200_days)) = Ledger l'"
    and k: "fst ` set l' = {k \<in> insert (iso_date (today scenario_env))
       (fst ` set (loadOrEmpty (analyticsFile service_200_days))).
      \<not> k < cutoffDate scenario_env}"
    using try_keys [OF goal_on_200_days] by blast
  show ?thesis
    unfolding l' loadOrEmpty_Ledger k service_200_days_file keys_ledger_of_days ..
qed



subsection \<open>Range queries\<close>

lemma update_fresh: "k \<notin> fst ` set al \<Longrightarrow> AList.update k v al = al @ [(k, v)]"
  by (induction al) auto

lemma fold_update_fresh:
  assumes "distinct (map kf ds)" and "kf ` set ds \<inter> fst ` set acc = {}"
  shows "fold (\<lambda>t acc. AList.update (kf t) (vf t) acc) ds acc = acc @ map (\<lambda>t. (kf t, vf t)) ds"
  using assms
proof (induction ds arbitrary: acc)
  case Nil
  show ?case by simp
next
  case (Cons t ds)
  have fresh: "kf t \<notin> fst ` set acc" using Cons.prems(2) by auto
  have d: "distinct (map kf ds)" and nt: "kf t \<notin> kf ` set ds"
    using Cons.prems(1) by auto
  have disj: "kf ` set ds \<inter> fst ` set (acc @ [(kf t, vf t)]) = {}"
    using Cons.prems(2) nt by auto
  have "fold (\<lambda>t acc. AList.update (kf t) (vf t) acc) (t # ds) acc =
      fold (\<lambda>t acc. AList.update (kf t) (vf t) acc) ds (acc @ [(kf t, vf t)])"
    by (simp add: update_fresh [OF fresh])
  also have "\<dots> = (acc @ [(kf t, vf t)]) @ map (\<lambda>t. (kf t, vf t)) ds"
    using d disj by (rule Cons.IH)
  finally show ?case by simp
qed

lemma range_loop_fold:
  "range_loop l d e acc =
     fold (\<lambda>t acc. AList.update (iso_date t) (recordOrEmpty l (iso_date t)) acc)
       (days_from_to d e) acc"
proof (induction l d e acc rule: range_loop.induct)
  case (1 l d e acc)
  show ?case
  proof (cases "day_le d e")
    case True
    then show ?thesis
      using "1.IH" [OF True]
      by (subst range_loop.simps, subst days_from_to.simps) simp
  next
    case False
    then show ?thesis
      by (subst range_loop.simps, subst days_from_to.simps) simp
  qed
qed

lemma days_from_to_props:
  "valid_day d \<Longrightarrow>
     set (days_from_to d e) = {t. valid_day t \<and> day_le d t \<and> day_le t e} \<and>
     sorted_wrt day_lt (days_from_to d e)"
proof (induction d e rule: days_from_to.induct)
  case (1 d e)
  show ?case
  proof (cases "day_le d e")
    case False
    have "{t. valid_day t \<and> day_le d t \<and> day_le t e} = {}"
      using False day_le_trans by blast
    then show ?thesis
      using False by (subst (1 2) days_from_to.simps) simp
  next
    case True
    have vn: "valid_day (next_day d)" using "1.prems" by (rule valid_next_day)
    note ih = "1.IH" [OF True vn]
    have step: "days_from_to d e = d # days_from_to (next_day d) e"
      using True by (subst days_from_to.simps) simp
    have lt: "day_lt d (next_day d)" using "1.prems" by (rule day_lt_next_day)
    have s: "{t. valid_day t \<and> day_le d t \<and> day_le t e} =
        insert d {t. valid_day t \<and> day_le (next_day d) t \<and> day_le t e}"
    proof (intro set_eqI iffI)
      fix t
      assume "t \<in> {t. valid_day t \<and> day_le d t \<and> day_le t e}"
      then have t: "valid_day t" "day_le d t" "day_le t e" by auto
      show "t \<in> insert d {t. valid_day t \<and> day_le (next_day d) t \<and> day_le t e}"
      proof (cases "t = d")
        case True
        then show ?thesis by simp
      next
        case False
        then have "day_lt d t" using t(2) by (auto simp: day_lt_def)
        then have "day_le (next_day d) t" using "1.prems" t(1) by (intro next_day_least)
        then show ?thesis using t by simp
      qed
    next
      fix t
      assume "t \<in> insert d {t. valid_day t \<and> day_le (next_day d) t \<and> day_le t e}"
      then consider "t = d" | "valid_day t" "day_le (next_day d) t" "day_le t e" by auto
      then show "t \<in> {t. valid_day t \<and> day_le d t \<and> day_le t e}"
      proof cases
        case 1
        then show ?thesis using "1.prems" True by simp
      next
        case 2
        have "day_le d t" using lt 2(2) day_le_trans by (auto simp: day_lt_def)
        then show ?thesis using 2 by simp
      qed
    qed
    have above: "\<forall>t \<in> set (days_from_to (next_day d) e). day_lt d t"
      using ih lt by (auto intro: day_lt_le_trans)
    show ?thesis
      unfolding step using ih s above by simp
  qed
qed

lemma year_le_of_day_le: "day_le a b \<Longrightarrow> year a \<le> year b"
  by (auto simp: day_le_def)

lemma days_from_to_in_iso_range:
  assumes "in_iso_range a" and "in_iso_range b" and "t \<in> set (days_from_to a b)"
  shows "in_iso_range t"
proof -
  have v: "valid_day a" using assms(1) by (simp add: in_iso_range_def)
  have t: "valid_day t" "day_le a t" "day_le t b"
    using days_from_to_props [OF v, of b] assms(3) by auto
  show ?thesis
    using t assms(1,2) year_le_of_day_le [OF t(2)] year_le_of_day_le [OF t(3)]
    by (simp add: in_iso_range_def)
qed

lemma sorted_iso_dates:
  assumes "in_iso_range a" and "in_iso_range b"
  shows "sorted_wrt (<) (map iso_date (days_from_to a b))"
proof -
  have v: "valid_day a" using assms(1) by (simp add: in_iso_range_def)
  have "sorted_wrt day_lt (days_from_to a b)"
    using days_from_to_props [OF v] by simp
  then have "sorted_wrt (\<lambda>x y. iso_date x < iso_date y) (days_from_to a b)"
  proof (rule sorted_wrt_mono_rel [rotated])
    fix x y
    assume "x \<in> set (days_from_to a b)" "y \<in> set (days_from_to a b)" "day_lt x y"
    then show "iso_date x < iso_date y"
      using days_from_to_in_iso_range [OF assms] by (simp add: iso_date_less_iff)
  qed
  then show ?thesis by (simp add: sorted_wrt_map)
qed

lemma range_loop_eq:
  assumes "in_iso_range a" and "in_iso_range b"
  shows "range_loop l a b [] =
    map (\<lambda>t. (iso_date t, recordOrEmpty l (iso_date t))) (days_from_to a b)"
proof -
  have "distinct (map iso_date (days_from_to a b))"
    using sorted_iso_dates [OF assms] by (simp add: strict_sorted_iff)
  then have "fold (\<lambda>t acc. AList.update (iso_date t) (recordOrEmpty l (iso_date t)) acc)
       (days_from_to a b) [] = [] @ map (\<lambda>t. (iso_date t, recordOrEmpty l (iso_date t))) (days_from_to a b)"
    by (rule fold_update_fresh) simp
  then show ?thesis by (simp add: range_loop_fold)
qed

lemma getDailyAnalytics_range:
  assumes "analyticsFile s = Ledger l" and "in_iso_range a" and "in_iso_range b"
  shows "getDailyAnalytics env s (Some (iso_date a)) (Some (iso_date b)) =
    RangeResult (map (\<lambda>t. (iso_date t, recordOrEmpty l (iso_date t))) (days_from_to a b))"
  using assms
  by (simp add: getDailyAnalytics_def readLedger_def falsy_def or_else_def iso_date_nonempty
      new_Date_iso_date range_loop_eq)

lemma days_from_to_after: "day_lt b a \<Longrightarrow> days_from_to a b = []"
  using not_day_le [of a b] by (subst days_from_to.simps) simp

lemma days_from_to_same: "valid_day a \<Longrightarrow> days_from_to a a = [a]"
proof -
  assume v: "valid_day a"
  have "day_lt a (next_day a)" using v by (rule day_lt_next_day)
  then have "\<not> day_le (next_day a) a" by (simp add: not_day_le)
  then have "days_from_to (next_day a) a = []"
    by (subst days_from_to.simps) simp
  then show ?thesis
    by (subst days_from_to.simps) simp
qed


lemma in_iso_range_examples:
  "in_iso_range (Day 2024 2 27)" "in_iso_range (Day 2024 3 2)"
  by (simp_all add: in_iso_range_def valid_day_def days_in_month_def leap_year_def)


subsection \<open>Summaries\<close>

lemma nearest_tenths_close:
  assumes "0 \<le> x"
  shows "\<bar>of_nat (nearest_tenths x) / 10 - x\<bar> \<le> 1 / 20"
proof -
  let ?f = "\<lfloor>10 * x + 1 / 2\<rfloor>"
  have nonneg: "0 \<le> ?f" using assms by simp
  have n: "(of_nat (nearest_tenths x) :: rat) = of_int ?f"
    using nonneg by (simp add: nearest_tenths_def)
  have up: "of_int ?f \<le> 10 * x + 1 / 2" by (rule of_int_floor_le)
  have lo: "10 * x + 1 / 2 < of_int ?f + 1" by linarith
  define k :: rat where "k = of_int ?f"
  have "k \<le> 10 * x + 1 / 2" "10 * x + 1 / 2 < k + 1"
    using up lo by (simp_all add: k_def)
  then have "k / 10 - x \<le> 1 / 20" "- (k / 10 - x) \<le> 1 / 20" by linarith+
  then have "\<bar>k / 10 - x\<bar> \<le> 1 / 20" by (rule abs_leI)
  then show ?thesis unfolding n k_def .
qed

lemma toFixed1_nonneg: "0 \<le> x \<Longrightarrow> toFixed1 x = show_tenths (nearest_tenths x)"
  by (simp add: toFixed1_def)

lemma summary_fields:
  "summary (getSummaryAnalytics env s days) =
     (let t = fold addDay (day_values (getDailyAnalytics env s
                (Some (iso_date (add_days (- days) (today env))))
                (Some (iso_date (today env))))) no_totals
      in \<lparr>summary_totalRequests = totalRequests_sum t,
          summary_successfulRequests = totalSuccessful t,
          summary_failedRequests = totalFailed t,
          successRate =
            (if totalRequests_sum t > 0
             then toFixed1 (of_nat (totalSuccessful t) / of_nat (totalRequests_sum t) * 100)
             else ''0''),
          uniqueUsers = length (uniqueIPs_set t),
          popularGoals = sortedGoals t\<rparr>)"
  by (simp add: getSummaryAnalytics_def Let_def)



lemma fold_addDay_requests:
  "totalRequests_sum (fold addDay rs t) =
     totalRequests_sum t + sum_list (map totalRequests (filter (\<lambda>r. totalRequests r \<noteq> 0) rs))"
  by (induction rs arbitrary: t) (simp_all add: addDay_def)

lemma fold_addDay_successful:
  "totalSuccessful (fold addDay rs t) =
     totalSuccessful t + sum_list (map successfulRequests (filter (\<lambda>r. totalRequests r \<noteq> 0) rs))"
  by (induction rs arbitrary: t) (simp_all add: addDay_def)

lemma fold_addDay_failed:
  "totalFailed (fold addDay rs t) =
     totalFailed t + sum_list (map failedRequests (filter (\<lambda>r. totalRequests r \<noteq> 0) rs))"
  by (induction rs arbitrary: t) (simp_all add: addDay_def)

lemma addIPs_props:
  "distinct acc \<Longrightarrow> distinct (addIPs ips acc) \<and> set (addIPs ips acc) = set acc \<union> set ips"
  unfolding addIPs_def by (induction ips arbitrary: acc) auto

lemma fold_addDay_ips:
  "distinct (uniqueIPs_set t) \<Longrightarrow>
   distinct (uniqueIPs_set (fold addDay rs t)) \<and>
   set (uniqueIPs_set (fold addDay rs t)) =
     set (uniqueIPs_set t) \<union> (\<Union>r \<in> set (filter (\<lambda>r. totalRequests r \<noteq> 0) rs). set (uniqueIPs r))"
proof (induction rs arbitrary: t)
  case Nil
  then show ?case by simp
next
  case (Cons r rs)
  show ?case
  proof (cases "totalRequests r \<noteq> 0")
    case False
    then show ?thesis using Cons.IH [OF Cons.prems] by (simp add: addDay_def)
  next
    case True
    have d: "distinct (uniqueIPs_set (addDay r t))"
      using True addIPs_props [OF Cons.prems, of "uniqueIPs r"] by (simp add: addDay_def)
    have s: "set (uniqueIPs_set (addDay r t)) = set (uniqueIPs_set t) \<union> set (uniqueIPs r)"
      using True addIPs_props [OF Cons.prems, of "uniqueIPs r"] by (simp add: addDay_def)
    show ?thesis
      using Cons.IH [OF d] True s by auto
  qed
qed

lemma tally_distinct:
  "distinct (map fst al) \<Longrightarrow> tally al g = (case map_of al g of None \<Rightarrow> 0 | Some c \<Rightarrow> c)"
proof (induction al)
  case Nil
  show ?case by (simp add: tally_def)
next
  case (Cons p al)
  obtain k n where p: "p = (k, n)" by (cases p)
  have ih: "tally al g = (case map_of al g of None \<Rightarrow> 0 | Some c \<Rightarrow> c)"
    using Cons by simp
  show ?case
  proof (cases "k = g")
    case True
    then have "map_of al g = None"
      using Cons.prems by (simp add: p map_of_eq_None_iff)
    then have "tally al g = 0" using ih by simp
    then show ?thesis using True by (simp add: p tally_def)
  next
    case False
    then show ?thesis using ih by (simp add: p tally_def)
  qed
qed

lemma tally_Cons: "tally ((k, n) # es) g = (if k = g then n else 0) + tally es g"
  by (simp add: tally_def)

lemma addGoalSelections_props:
  "distinct (map fst acc) \<Longrightarrow>
   distinct (map fst (addGoalSelections es acc)) \<and>
   tally (addGoalSelections es acc) g = tally acc g + tally es g"
proof (induction es arbitrary: acc)
  case Nil
  then show ?case by (simp add: addGoalSelections_def tally_def)
next
  case (Cons e es)
  obtain k n where e: "e = (k, n)" by (cases e)
  let ?acc' = "AList.update k ((case map_of acc k of None \<Rightarrow> 0 | Some c \<Rightarrow> c) + n) acc"
  have d': "distinct (map fst ?acc')"
    using Cons.prems by (rule distinct_update)
  have step: "addGoalSelections (e # es) acc = addGoalSelections es ?acc'"
    by (simp add: addGoalSelections_def e)
  have "tally ?acc' g = (case map_of ?acc' g of None \<Rightarrow> 0 | Some c \<Rightarrow> c)"
    using d' by (rule tally_distinct)
  also have "\<dots> = (case map_of acc g of None \<Rightarrow> 0 | Some c \<Rightarrow> c) + (if k = g then n else 0)"
    by (simp add: update_conv')
  also have "\<dots> = tally acc g + (if k = g then n else 0)"
    using Cons.prems by (simp add: tally_distinct)
  finally have t': "tally ?acc' g = tally acc g + (if k = g then n else 0)" .
  show ?case
    unfolding step using Cons.IH [OF d'] t' by (simp add: e tally_Cons)
qed

lemma fold_addDay_goals:
  "distinct (map fst (allGoalSelections t)) \<Longrightarrow>
   distinct (map fst (allGoalSelections (fold addDay rs t))) \<and>
   tally (allGoalSelections (fold addDay rs t)) g =
     tally (allGoalSelections t) g +
     sum_list (map (\<lambda>r. tally (goalSelections r) g) (filter (\<lambda>r. totalRequests r \<noteq> 0) rs))"
proof (induction rs arbitrary: t)
  case Nil
  then show ?case by simp
next
  case (Cons r rs)
  show ?case
  proof (cases "totalRequests r \<noteq> 0")
    case False
    then show ?thesis using Cons.IH [OF Cons.prems] by (simp add: addDay_def)
  next
    case True
    note p = addGoalSelections_props [OF Cons.prems, of "goalSelections r" g]
    have d: "distinct (map fst (allGoalSelections (addDay r t)))"
      using True p by (simp add: addDay_def)
    have s: "tally (allGoalSelections (addDay r t)) g =
        tally (allGoalSelections t) g + tally (goalSelections r) g"
      using True p by (simp add: addDay_def)
    show ?thesis
      using Cons.IH [OF d] True s by simp
  qed
qed

lemma sort_key_short: "length xs \<le> 1 \<Longrightarrow> sort_key f xs = xs"
  by (cases xs) (simp_all add: length_Suc_conv)

lemma filter_key_short:
  "distinct (map fst al) \<Longrightarrow> length (filter (\<lambda>(k, n). k = g) al) \<le> 1"
proof (induction al)
  case Nil
  show ?case by simp
next
  case (Cons p al)
  obtain k n where p: "p = (k, n)" by (cases p)
  show ?case
  proof (cases "k = g")
    case True
    then have "g \<notin> fst ` set al" using Cons.prems by (simp add: p)
    then have "filter (\<lambda>(k, n). k = g) al = []"
      by (force simp: filter_empty_conv)
    then show ?thesis by (simp add: p)
  next
    case False
    then show ?thesis using Cons by (simp add: p)
  qed
qed

lemma sortedGoals_tally:
  assumes "distinct (map fst (allGoalSelections t))"
  shows "sum_list (map count (filter (\<lambda>sh. goal sh = g) (sortedGoals t))) =
    tally (allGoalSelections t) g"
proof -
  let ?mk = "\<lambda>(g, n). \<lparr>goal = g, count = n,
      percentage = toFixed1 (of_nat n / of_nat (totalRequests_sum t) * 100)\<rparr>"
  let ?key = "\<lambda>(g, n :: nat). - int n"
  let ?al = "allGoalSelections t"
  have f: "filter (\<lambda>sh. goal sh = g) (map ?mk xs) = map ?mk (filter (\<lambda>(k, n). k = g) xs)" for xs
    by (induction xs) auto
  have c: "map count (map ?mk xs) = map snd xs" for xs
    by (induction xs) auto
  have "sum_list (map count (filter (\<lambda>sh. goal sh = g) (sortedGoals t))) =
      sum_list (map snd (filter (\<lambda>(k, n). k = g) (sort_key ?key ?al)))"
    unfolding sortedGoals_def f c ..
  also have "\<dots> = sum_list (map snd (sort_key ?key (filter (\<lambda>(k, n). k = g) ?al)))"
    by (simp only: filter_sort)
  also have "\<dots> = sum_list (map snd (filter (\<lambda>(k, n). k = g) ?al))"
    using filter_key_short [OF assms, of g] by (simp only: sort_key_short)
  also have "\<dots> = tally ?al g"
    by (simp only: tally_def)
  finally show ?thesis .
qed

lemma add_days_nonneg_back:
  "0 \<le> days \<Longrightarrow> add_days (- days) t = (prev_day ^^ nat days) t"
  using add_days_neg [of "nat days" t] by simp

lemma summary_range:
  assumes "analyticsFile s = Ledger l" and "clock_in_range env"
    and "0 \<le> days" and "days \<le> year (today env)"
  shows "summary (getSummaryAnalytics env s days) =
     (let t = fold addDay
                (map (\<lambda>t. recordOrEmpty l (iso_date t))
                   (days_from_to (add_days (- days) (today env)) (today env))) no_totals
      in \<lparr>summary_totalRequests = totalRequests_sum t,
          summary_successfulRequests = totalSuccessful t,
          summary_failedRequests = totalFailed t,
          successRate =
            (if totalRequests_sum t > 0
             then toFixed1 (of_nat (totalSuccessful t) / of_nat (totalRequests_sum t) * 100)
             else ''0''),
          uniqueUsers = length (uniqueIPs_set t),
          popularGoals = sortedGoals t\<rparr>)"
proof -
  have r: "in_iso_range (today env)"
    using assms(2) by (simp add: clock_in_range_def)
  have "int (nat days) \<le> year (today env)" using assms(3,4) by simp
  then have "in_iso_range ((prev_day ^^ nat days) (today env))"
    using r by (intro in_iso_range_funpow_prev)
  then have rs: "in_iso_range (add_days (- days) (today env))"
    using assms(3) by (simp add: add_days_nonneg_back)
  have "day_values (getDailyAnalytics env s (Some (iso_date (add_days (- days) (today env))))
      (Some (iso_date (today env)))) =
    map (\<lambda>t. recordOrEmpty l (iso_date t))
      (days_from_to (add_days (- days) (today env)) (today env))"
    by (simp add: getDailyAnalytics_range [OF assms(1) rs r] day_values_def comp_def)
  then show ?thesis
    by (simp only: summary_fields)
qed

lemma no_totals_distinct:
  "distinct (uniqueIPs_set no_totals)" "distinct (map fst (allGoalSelections no_totals))"
  by (simp_all add: no_totals_def)


lemma fold_addDay_none:
  "\<forall>r \<in> set rs. totalRequests r = 0 \<Longrightarrow> fold addDay rs t = t"
  by (induction rs arbitrary: t) (simp_all add: addDay_def)



end
